theory Spec2Isabelle
  imports Complex_Main
begin

section \<open>Python values, errors and output\<close>

text \<open>
  The program is a Python script (\<^verbatim>\<open>yt-video-downloader.py\<close>). Exceptions are values:
  a function that may raise returns \<open>py_error + 'a\<close>, with \<open>Inl\<close> the exception raised.
  Standard output is a string; a function that prints takes the text written so far and
  returns it extended.
\<close>

datatype py_error = KeyError | TypeError | OverflowError | ValueError

text \<open>
  The values an event dictionary holds: \<^verbatim>\<open>None\<close>, a \<^verbatim>\<open>str\<close> or an \<^verbatim>\<open>int\<close> (unbounded).
\<close>

datatype pyval = PyNone | PyStr string | PyInt int

text \<open>
  The loop variable \<^verbatim>\<open>num\<close> of \<^verbatim>\<open>sizeof_fmt\<close> is an \<^verbatim>\<open>int\<close> on entry and a \<^verbatim>\<open>float\<close> after the
  first division. \<open>NFloat x\<close> is the finite double whose exact value is the rational \<open>x\<close>.
\<close>

datatype pynum = NInt int | NFloat rat

definition bind_result :: "'e + 'a \<Rightarrow> ('a \<Rightarrow> 'e + 'b) \<Rightarrow> 'e + 'b" where
  "bind_result m f = (case m of Inl e \<Rightarrow> Inl e | Inr x \<Rightarrow> f x)"

definition CR :: char where
  "CR = CHR 0x0D"

definition LF :: char where
  "LF = CHR 0x0A"

section \<open>Decimal rendering and rounding\<close>

definition digit_char :: "nat \<Rightarrow> char" where
  "digit_char d = ''0123456789'' ! d"

fun digits10 :: "nat \<Rightarrow> string" where
  "digits10 n = (if n < 10 then [digit_char n] else digits10 (n div 10) @ [digit_char (n mod 10)])"

declare digits10.simps [simp del]

text \<open>\<^verbatim>\<open>str(n)\<close> for an int.\<close>

definition str_int :: "int \<Rightarrow> string" where
  "str_int n = (if n < 0 then CHR ''-'' # digits10 (nat (- n)) else digits10 (nat n))"

text \<open>
  \<^verbatim>\<open>str(v)\<close>, which is what an f-string field \<^verbatim>\<open>{v}\<close> renders. CPython (3.11, and every release
  with the integer string conversion limit) refuses to convert an int of more than 4300 digits,
  the default of \<^verbatim>\<open>sys.get_int_max_str_digits()\<close>, and raises \<^verbatim>\<open>ValueError\<close>.
\<close>

definition int_max_str_digits :: nat where
  "int_max_str_digits = 4300"

fun py_str :: "pyval \<Rightarrow> py_error + string" where
  "py_str PyNone = Inr ''None''"
| "py_str (PyStr s) = Inr s"
| "py_str (PyInt n) =
     (if \<bar>n\<bar> < 10 ^ int_max_str_digits then Inr (str_int n) else Inl ValueError)"

text \<open>Truthiness, as \<^verbatim>\<open>or\<close> and \<^verbatim>\<open>if\<close> test it.\<close>

fun truthy :: "pyval \<Rightarrow> bool" where
  "truthy PyNone = False"
| "truthy (PyStr s) = (s \<noteq> [])"
| "truthy (PyInt n) = (n \<noteq> 0)"

definition py_or :: "pyval \<Rightarrow> pyval \<Rightarrow> pyval" where
  "py_or a b = (if truthy a then a else b)"

text \<open>
  Rounding to the nearest integer, ties to the even one: the rule of IEEE 754 that Python
  uses both when it converts an int to a float and when it formats a float with a fixed
  number of decimals (the decimal printed is the one nearest to the exact binary value).
\<close>

definition round_half_even :: "rat \<Rightarrow> int" where
  "round_half_even x =
     (let f = \<lfloor>x\<rfloor>; d = x - of_int f
      in if 1 / 2 < d \<or> (d = 1 / 2 \<and> odd f) then f + 1 else f)"

text \<open>\<^verbatim>\<open>n.bit_length()\<close> of a non-negative int: the number of bits of its binary numeral.\<close>

function bit_length :: "int \<Rightarrow> nat" where
  "bit_length n = (if n \<le> 0 then 0 else Suc (bit_length (n div 2)))"
  by pat_completeness auto
termination
  by (relation "measure nat") auto

declare bit_length.simps [simp del]

text \<open>
  \<^verbatim>\<open>float(n)\<close> for an int, as \<^verbatim>\<open>n / 1024.0\<close> and \<^verbatim>\<open>format(n, ".1f")\<close> perform it: the magnitude
  is rounded to 53 significant bits, ties to even (\<open>round_53\<close>: the bits below the top 53
  are dropped by a rounded division), and a result of \<open>2 ^ 1024\<close> or more does not fit a
  double: \<^verbatim>\<open>OverflowError: int too large to convert to float\<close>.
\<close>

definition round_53 :: "int \<Rightarrow> int" where
  "round_53 a =
     (let e = bit_length a - 53
      in round_half_even (of_int a / 2 ^ e) * 2 ^ e)"

definition float_of_int :: "int \<Rightarrow> py_error + rat" where
  "float_of_int n =
     (let v = round_53 \<bar>n\<bar>
      in if 2 ^ 1024 \<le> v then Inl OverflowError
         else Inr (if n < 0 then - of_int v else of_int v))"

fun as_float :: "pynum \<Rightarrow> py_error + rat" where
  "as_float (NInt n) = float_of_int n"
| "as_float (NFloat x) = Inr x"

text \<open>
  The format specification \<^verbatim>\<open>.1f\<close> on a finite float: sign, integer digits, a point and one
  decimal, the value rounded half-even to tenths. A negative value that rounds to zero
  keeps its sign (\<^verbatim>\<open>-0.0\<close>).
\<close>

definition format_f1 :: "rat \<Rightarrow> string" where
  "format_f1 x =
     (let t = nat (round_half_even (\<bar>x\<bar> * 10))
      in (if x < 0 then ''-'' else '''') @ digits10 (t div 10) @ ''.'' @ digits10 (t mod 10))"

text \<open>A minimum field width pads on the left with spaces (numbers are right-aligned).\<close>

definition pad_left :: "nat \<Rightarrow> string \<Rightarrow> string" where
  "pad_left w s = replicate (w - length s) CHR '' '' @ s"

text \<open>\<^verbatim>\<open>f"{num:w.1f}"\<close>: an int is converted to a float first.\<close>

definition format_float :: "nat \<Rightarrow> pynum \<Rightarrow> py_error + string" where
  "format_float w num = bind_result (as_float num) (\<lambda>x. Inr (pad_left w (format_f1 x)))"

section \<open>sizeof_fmt\<close>

text \<open>
  \<^verbatim>\<open>abs(num) < 1024.0\<close>: the comparison of an int with a float is exact in Python, so no
  conversion (and no overflow) happens here.
\<close>

fun abs_lt_1024 :: "pynum \<Rightarrow> bool" where
  "abs_lt_1024 (NInt n) = (\<bar>n\<bar> < 1024)"
| "abs_lt_1024 (NFloat x) = (\<bar>x\<bar> < 1024)"

text \<open>
  \<^verbatim>\<open>num /= 1024.0\<close>: an int is converted to a float, then divided. The division by a power
  of two is exact on a double of magnitude at least 1024, the only ones the loop divides.
\<close>

definition truediv_1024 :: "pynum \<Rightarrow> py_error + pynum" where
  "truediv_1024 num = bind_result (as_float num) (\<lambda>x. Inr (NFloat (x / 1024)))"

definition units :: "string list" where
  "units = ['''', ''Ki'', ''Mi'', ''Gi'', ''Ti'', ''Pi'', ''Ei'', ''Zi'']"

text \<open>
  The \<^verbatim>\<open>for unit in [...]\<close> loop of \<^verbatim>\<open>sizeof_fmt\<close>, by recursion on the units left; the empty
  list is the statement after the loop.
\<close>

fun sizeof_fmt_loop :: "string list \<Rightarrow> pynum \<Rightarrow> string \<Rightarrow> py_error + string" where
  "sizeof_fmt_loop [] num suffix =
     bind_result (format_float 0 num) (\<lambda>s. Inr (s @ ''Yi'' @ suffix))"
| "sizeof_fmt_loop (unit # rest) num suffix =
     (if abs_lt_1024 num
      then bind_result (format_float 3 num) (\<lambda>s. Inr (s @ unit @ suffix))
      else bind_result (truediv_1024 num) (\<lambda>num'. sizeof_fmt_loop rest num' suffix))"

definition sizeof_fmt :: "pynum \<Rightarrow> string \<Rightarrow> py_error + string" where
  "sizeof_fmt num suffix = sizeof_fmt_loop units num suffix"

section \<open>progress_hook\<close>

text \<open>
  The event the engine passes to the hook is a dict from keys to values. \<^verbatim>\<open>d.get(k)\<close> gives
  \<^verbatim>\<open>None\<close> for a missing key, \<^verbatim>\<open>d.get(k, default)\<close> the default, and \<^verbatim>\<open>d[k]\<close> raises
  \<^verbatim>\<open>KeyError\<close>.
\<close>

type_synonym event = "string \<rightharpoonup> pyval"

definition dict_get :: "event \<Rightarrow> string \<Rightarrow> pyval" where
  "dict_get d k = (case d k of None \<Rightarrow> PyNone | Some v \<Rightarrow> v)"

definition dict_get_default :: "event \<Rightarrow> string \<Rightarrow> pyval \<Rightarrow> pyval" where
  "dict_get_default d k dflt = (case d k of None \<Rightarrow> dflt | Some v \<Rightarrow> v)"

text \<open>
  The call \<^verbatim>\<open>sizeof_fmt(v)\<close> on a value of the event, with the default suffix \<^verbatim>\<open>"B"\<close>: the
  first thing the function does is \<^verbatim>\<open>abs(num)\<close>, a \<^verbatim>\<open>TypeError\<close> on \<^verbatim>\<open>None\<close> and on a string.
\<close>

fun sizeof_fmt_val :: "pyval \<Rightarrow> py_error + string" where
  "sizeof_fmt_val (PyInt n) = sizeof_fmt (NInt n) ''B''"
| "sizeof_fmt_val PyNone = Inl TypeError"
| "sizeof_fmt_val (PyStr s) = Inl TypeError"

text \<open>
  Lines 145 to 151: the locals \<^verbatim>\<open>total\<close> and \<^verbatim>\<open>downloaded\<close>, and the value of \<^verbatim>\<open>size_str\<close>.
  In the f-string \<^verbatim>\<open>sizeof_fmt(downloaded)\<close> is evaluated before \<^verbatim>\<open>sizeof_fmt(total)\<close>.
\<close>

definition total_of :: "event \<Rightarrow> pyval" where
  "total_of d = py_or (dict_get d ''total_bytes'') (dict_get d ''total_bytes_estimated'')"

definition downloaded_of :: "event \<Rightarrow> pyval" where
  "downloaded_of d = py_or (dict_get d ''downloaded_bytes'') (PyInt 0)"

definition size_str :: "event \<Rightarrow> py_error + string" where
  "size_str d =
     (let total = total_of d; downloaded = downloaded_of d
      in if truthy total
         then bind_result (sizeof_fmt_val downloaded) (\<lambda>a.
              bind_result (sizeof_fmt_val total) (\<lambda>b. Inr (a @ '' / '' @ b)))
         else sizeof_fmt_val downloaded)"

text \<open>
  The hook, on the text \<open>out\<close> written to standard output so far. \<^verbatim>\<open>size_str\<close> is computed
  first (lines 145 to 151); the f-string of line 153 then renders \<^verbatim>\<open>percent\<close>, \<^verbatim>\<open>speed\<close> and
  \<^verbatim>\<open>eta\<close> in that order. \<^verbatim>\<open>print(msg, end='')\<close> appends the message alone, \<^verbatim>\<open>print(s)\<close>
  appends a line feed after it.
\<close>

definition progress_hook :: "event \<Rightarrow> string \<Rightarrow> py_error + string" where
  "progress_hook d out =
     (case d ''status'' of
        None \<Rightarrow> Inl KeyError
      | Some status \<Rightarrow>
          if status = PyStr ''downloading'' then
            (let percent = dict_get_default d ''_percent_str'' (PyStr ''?%'');
                 speed = dict_get_default d ''_speed_str'' (PyStr ''? B/s'');
                 eta = dict_get_default d ''_eta_str'' (PyStr ''?s'')
             in bind_result (size_str d) (\<lambda>sz.
                bind_result (py_str percent) (\<lambda>p.
                bind_result (py_str speed) (\<lambda>sp.
                bind_result (py_str eta) (\<lambda>e.
                  Inr (out @ CR # p @ ''  '' @ sz @ ''  '' @ sp @ ''  ETA '' @ e))))))
          else if status = PyStr ''finished'' then
            Inr (out @ LF # ''Download complete, now post-processing...'' @ [LF])
          else Inr out)"

subsection \<open>Vocabulary for the statements about the hook\<close>

text \<open>
  These definitions are not code: they name the events and the line the properties below
  speak of. A field is absent-or-falsy when the key is missing or its value is \<^verbatim>\<open>None\<close>, 0 or
  the empty string, which is what \<^verbatim>\<open>or\<close> and \<^verbatim>\<open>if\<close> pass over.
\<close>

definition falsy_opt :: "pyval option \<Rightarrow> bool" where
  "falsy_opt v = (case v of None \<Rightarrow> True | Some w \<Rightarrow> \<not> truthy w)"

text \<open>A field holding an int that converts to a float (magnitude below \<open>2 ^ 1024 - 2 ^ 970\<close>).\<close>

definition formattable :: "pyval option \<Rightarrow> bool" where
  "formattable v = (case v of Some (PyInt n) \<Rightarrow> \<bar>n\<bar> < 2 ^ 1024 - 2 ^ 970 | _ \<Rightarrow> False)"





text \<open>
  The text of a field of the event that holds a string, or the default when the key is
  missing; and a \<^verbatim>\<open>downloading\<close> event with its three texts.
\<close>

definition text_field :: "event \<Rightarrow> string \<Rightarrow> string \<Rightarrow> string option" where
  "text_field d k dflt =
     (case d k of None \<Rightarrow> Some dflt | Some (PyStr s) \<Rightarrow> Some s | Some _ \<Rightarrow> None)"

definition downloading_with :: "event \<Rightarrow> string \<Rightarrow> string \<Rightarrow> string \<Rightarrow> bool" where
  "downloading_with d percent rate eta =
     (d ''status'' = Some (PyStr ''downloading'')
      \<and> text_field d ''_percent_str'' ''?%'' = Some percent
      \<and> text_field d ''_speed_str'' ''? B/s'' = Some rate
      \<and> text_field d ''_eta_str'' ''?s'' = Some eta)"

text \<open>
  The byte count a field stands for: the int it holds, and 0 when it is absent or falsy
  (\<^verbatim>\<open>d.get('downloaded_bytes') or 0\<close>).
\<close>

definition count_is :: "pyval option \<Rightarrow> int \<Rightarrow> bool" where
  "count_is v n = (v = Some (PyInt n) \<or> falsy_opt v \<and> n = 0)"

text \<open>
  The status line in the spec's words: percent text, two spaces, size text, two spaces,
  rate text, two spaces, \<^verbatim>\<open>ETA\<close>, a space, eta text.
\<close>

definition spec_status_line :: "string \<Rightarrow> string \<Rightarrow> string \<Rightarrow> string \<Rightarrow> string" where
  "spec_status_line percent sz rate eta =
     percent @ ''  '' @ sz @ ''  '' @ rate @ ''  '' @ ''ETA'' @ '' '' @ eta"

section \<open>main: arguments and engine options\<close>

text \<open>
  The command line as argparse sees it after splitting: the positional URL, the value
  given to \<^verbatim>\<open>-f/--format\<close> and to \<^verbatim>\<open>-o/--output\<close> if any, and the two flags.
\<close>

record cli =
  cli_url :: string
  cli_format :: "string option"
  cli_output :: "string option"
  cli_list_formats :: bool
  cli_no_playlist :: bool

text \<open>The namespace \<^verbatim>\<open>args\<close> that \<^verbatim>\<open>parser.parse_args()\<close> returns (\<open>output_arg\<close> is \<^verbatim>\<open>args.output\<close>).\<close>

record args =
  url :: string
  format :: string
  output_arg :: string
  list_formats :: bool
  no_playlist :: bool

definition format_choices :: "string list" where
  "format_choices = [''best'', ''bestvideo'', ''bestaudio'', ''720'', ''1080'', ''audio'']"

text \<open>
  \<^verbatim>\<open>parse_args\<close>: a value of \<^verbatim>\<open>-f\<close> outside \<^verbatim>\<open>choices\<close> is an argparse error, which prints
  the usage to standard error and exits with status 2 (\<open>Inl 2\<close>); options not given take
  their defaults.
\<close>

definition parse_args :: "cli \<Rightarrow> int + args" where
  "parse_args c =
     (let f = (case cli_format c of None \<Rightarrow> ''best'' | Some v \<Rightarrow> v);
          out = (case cli_output c of None \<Rightarrow> ''%(title)s [%(id)s].%(ext)s'' | Some v \<Rightarrow> v)
      in if f \<in> set format_choices
         then Inr \<lparr>url = cli_url c, format = f, output_arg = out,
                   list_formats = cli_list_formats c, no_playlist = cli_no_playlist c\<rparr>
         else Inl 2)"

text \<open>The values of the dict \<^verbatim>\<open>ydl_opts\<close>.\<close>

datatype callback = Progress_hook

datatype optval =
    OStr string
  | OBool bool
  | OInt int
  | OCallbacks "callback list"
  | ODicts "(string \<times> string) list list"

type_synonym ydl_opts = "string \<rightharpoonup> optval"

text \<open>Lines 74 to 83: the dict literal.\<close>

definition base_opts :: "args \<Rightarrow> ydl_opts" where
  "base_opts a =
     [''outtmpl'' \<mapsto> OStr (output_arg a),
      ''quiet'' \<mapsto> OBool False,
      ''no_warnings'' \<mapsto> OBool True,
      ''continuedl'' \<mapsto> OBool True,
      ''retries'' \<mapsto> OInt 10,
      ''fragment_retries'' \<mapsto> OInt 10,
      ''noplaylist'' \<mapsto> OBool (no_playlist a),
      ''progress_hooks'' \<mapsto> OCallbacks [Progress_hook]]"

text \<open>Lines 86 to 102: the \<^verbatim>\<open>if/elif\<close> chain on \<^verbatim>\<open>args.format\<close>; it has no \<^verbatim>\<open>else\<close>.\<close>

definition format_selection :: "string \<Rightarrow> ydl_opts \<Rightarrow> ydl_opts" where
  "format_selection f opts =
     (if f = ''best'' then opts(''format'' \<mapsto> OStr ''bestvideo+bestaudio/best'')
      else if f = ''bestvideo'' then opts(''format'' \<mapsto> OStr ''bestvideo'')
      else if f = ''bestaudio'' then opts(''format'' \<mapsto> OStr ''bestaudio/best'')
      else if f = ''audio'' then
        opts(''format'' \<mapsto> OStr ''bestaudio/best'',
             ''postprocessors'' \<mapsto> ODicts [[(''key'', ''FFmpegExtractAudio''),
                                              (''preferredcodec'', ''m4a''),
                                              (''preferredquality'', ''192'')]])
      else if f = ''720'' then
        opts(''format'' \<mapsto> OStr ''bestvideo[height<=720]+bestaudio/best[height<=720]'')
      else if f = ''1080'' then
        opts(''format'' \<mapsto> OStr ''bestvideo[height<=1080]+bestaudio/best[height<=1080]'')
      else opts)"

text \<open>Lines 104 to 107.\<close>

definition list_formats_opts :: "bool \<Rightarrow> ydl_opts \<Rightarrow> ydl_opts" where
  "list_formats_opts l opts =
     (if l then opts(''listformats'' \<mapsto> OBool True, ''quiet'' \<mapsto> OBool True,
                     ''simulate'' \<mapsto> OBool True)
      else opts)"

definition build_opts :: "args \<Rightarrow> ydl_opts" where
  "build_opts a = list_formats_opts (list_formats a) (format_selection (format a) (base_opts a))"

text \<open>
  The configuration derived from a command line: the options of the engine, or the exit
  status of the argument parser.
\<close>

definition configure :: "cli \<Rightarrow> int + ydl_opts" where
  "configure c = bind_result (parse_args c) (\<lambda>a. Inr (build_opts a))"

section \<open>main: the run and its failures\<close>

text \<open>
  What is raised inside the \<^verbatim>\<open>try\<close>: \<^verbatim>\<open>DownloadError\<close> (with \<^verbatim>\<open>str(e)\<close>), another subclass of
  \<^verbatim>\<open>Exception\<close> (class name and \<^verbatim>\<open>str(e)\<close>), or a \<^verbatim>\<open>BaseException\<close> outside \<^verbatim>\<open>Exception\<close>
  (\<^verbatim>\<open>KeyboardInterrupt\<close>, \<^verbatim>\<open>SystemExit\<close>), which no handler of \<^verbatim>\<open>main\<close> catches.
\<close>

datatype raised =
    DownloadError string
  | OtherException string string
  | NonException string

text \<open>
  The metadata dict \<^verbatim>\<open>extract_info\<close> returns, with the keys \<^verbatim>\<open>main\<close> reads. \<open>title\<close> is \<open>None\<close>
  when the key is missing; \<open>duration\<close> is \<open>None\<close> when the key is missing or holds \<^verbatim>\<open>None\<close> (both
  skip the duration line) and otherwise an int or a float; \<open>entries\<close>, when present, is a list.
\<close>

datatype info =
  Info (title: "pyval option") (duration: "pynum option") (entries: "info list option")

text \<open>
  The engine is a parameter: \<open>create\<close> is \<^verbatim>\<open>YoutubeDL(ydl_opts)\<close> entering the \<^verbatim>\<open>with\<close> block
  (the exception it raises, if any), \<open>extract_info\<close> the call of that name, giving the text
  the engine and its hooks wrote to standard output and the result.
\<close>

record engine =
  create :: "ydl_opts \<Rightarrow> raised option"
  extract_info :: "ydl_opts \<Rightarrow> string \<Rightarrow> bool \<Rightarrow> string \<times> (raised + info)"

text \<open>
  The two \<^verbatim>\<open>ValueError\<close>s the code of \<^verbatim>\<open>main\<close> can raise on such a dict, with the texts of
  CPython 3.11: an int of more than 4300 digits in an f-string, and the format code \<^verbatim>\<open>d\<close>
  applied to a float.
\<close>

definition digits_limit_error :: raised where
  "digits_limit_error =
     OtherException ''ValueError''
       (''Exceeds the limit (4300 digits) for integer string conversion; ''
        @ ''use sys.set_int_max_str_digits() to increase the limit'')"

definition float_format_d_error :: raised where
  "float_format_d_error =
     OtherException ''ValueError''
       (''Unknown format code '' @ [CHR 0x27] @ ''d'' @ [CHR 0x27] @ '' for object of type ''
        @ [CHR 0x27] @ ''float'' @ [CHR 0x27])"

text \<open>\<^verbatim>\<open>f"{v}"\<close> inside \<^verbatim>\<open>main\<close>.\<close>

definition fmt_str :: "pyval \<Rightarrow> raised + string" where
  "fmt_str v = (case py_str v of Inl e \<Rightarrow> Inl digits_limit_error | Inr s \<Rightarrow> Inr s)"

text \<open>\<^verbatim>\<open>f"{n:02d}"\<close> on an int: at least two characters, padded with a zero after the sign.\<close>

definition fmt_02d :: "int \<Rightarrow> raised + string" where
  "fmt_02d n =
     (if \<bar>n\<bar> < 10 ^ int_max_str_digits
      then Inr (if 0 \<le> n \<and> n < 10 then CHR ''0'' # str_int n else str_int n)
      else Inl digits_limit_error)"

text \<open>
  Lines 125 to 128 on an int duration: the value of \<^verbatim>\<open>dur_str\<close>. Python's \<^verbatim>\<open>divmod\<close> on ints is
  floor division and its remainder, as \<open>div\<close> and \<open>mod\<close> are.
\<close>

definition dur_str :: "int \<Rightarrow> raised + string" where
  "dur_str dur =
     (let mins = dur div 60; secs = dur mod 60;
          hrs = mins div 60; mins' = mins mod 60
      in bind_result (if hrs \<noteq> 0 then bind_result (fmt_02d hrs) (\<lambda>h. Inr (h @ '':'')) else Inr [])
           (\<lambda>s1. bind_result (fmt_02d mins') (\<lambda>m. bind_result (fmt_02d secs) (\<lambda>s.
              Inr (s1 @ m @ '':'' @ s)))))"

text \<open>
  Lines 117 to 129: what is printed about the metadata, and the exception that ends it, if
  any. A float duration other than zero reaches \<^verbatim>\<open>f"{hrs:02d}"\<close> or \<^verbatim>\<open>f"{mins:02d}"\<close> with a float
  and raises there, after the title line is printed.
\<close>

definition summary :: "info \<Rightarrow> string \<times> raised option" where
  "summary i =
     (case entries i of
        Some es \<Rightarrow>
          (case fmt_str (case title i of None \<Rightarrow> PyStr ''Unknown'' | Some t \<Rightarrow> t) of
             Inl e \<Rightarrow> ([], Some e)
           | Inr t \<Rightarrow>
               (LF # ''Playlist: '' @ t @ [LF]
                  @ ''Found '' @ digits10 (length es) @ '' videos'' @ [LF, LF], None))
      | None \<Rightarrow>
          (case fmt_str (case title i of None \<Rightarrow> PyStr ''Unknown title'' | Some t \<Rightarrow> t) of
             Inl e \<Rightarrow> ([], Some e)
           | Inr t \<Rightarrow>
               (let out1 = LF # ''Title: '' @ t @ [LF]
                in case duration i of
                     None \<Rightarrow> (out1, None)
                   | Some (NFloat x) \<Rightarrow>
                       if x = 0 then (out1, None) else (out1, Some float_format_d_error)
                   | Some (NInt dur) \<Rightarrow>
                       if dur = 0 then (out1, None)
                       else (case dur_str dur of
                               Inl e \<Rightarrow> (out1, Some e)
                             | Inr s \<Rightarrow> (out1 @ ''Duration: '' @ s @ [LF], None)))))"

text \<open>Lines 110 to 129: the body of the \<^verbatim>\<open>try\<close>, giving the output and what it raised.\<close>

definition try_body :: "engine \<Rightarrow> args \<Rightarrow> ydl_opts \<Rightarrow> string \<Rightarrow> string \<times> raised option" where
  "try_body eng a opts out =
     (case create eng opts of
        Some e \<Rightarrow> (out, Some e)
      | None \<Rightarrow>
          (let out1 = out @ LF # ''Fetching info... '' @ url a @ [LF];
               (written, r) = extract_info eng opts (url a) (\<not> list_formats a)
           in case r of
                Inl e \<Rightarrow> (out1 @ written, Some e)
              | Inr i \<Rightarrow>
                  if list_formats a then (out1 @ written, None)
                  else (let (text, r') = summary i in (out1 @ written @ text, r'))))"

datatype outcome = Returned | Exit int | Propagated string

text \<open>\<^verbatim>\<open>main\<close>: the output, and how the process goes on.\<close>

definition main :: "engine \<Rightarrow> cli \<Rightarrow> string \<Rightarrow> string \<times> outcome" where
  "main eng c out =
     (case parse_args c of
        Inl status \<Rightarrow> (out, Exit status)
      | Inr a \<Rightarrow>
          (let (out', r) = try_body eng a (build_opts a) out
           in case r of
                None \<Rightarrow> (out', Returned)
              | Some (DownloadError msg) \<Rightarrow>
                  (out' @ LF # ''Download failed: '' @ msg @ [LF], Exit 1)
              | Some (OtherException kind msg) \<Rightarrow>
                  (out' @ LF # ''Unexpected error: '' @ kind @ '': '' @ msg @ [LF], Exit 1)
              | Some (NonException kind) \<Rightarrow> (out', Propagated kind)))"

section \<open>Properties\<close>

lemma bind_result_Inr [simp]: "bind_result (Inr x) f = f x"
  by (simp add: bind_result_def)

lemma bind_result_Inl [simp]: "bind_result (Inl e) f = Inl e"
  by (simp add: bind_result_def)

subsection \<open>Rounding, bit length and field width\<close>

lemma digits10_nonempty: "digits10 n \<noteq> []"
  by (subst digits10.simps) simp

lemma format_f1_length: "3 \<le> length (format_f1 x)"
proof -
  have "1 \<le> length (digits10 n)" for n
    using digits10_nonempty [of n] by (cases "digits10 n") simp_all
  from this [of "nat (round_half_even (\<bar>x\<bar> * 10)) div 10"]
       this [of "nat (round_half_even (\<bar>x\<bar> * 10)) mod 10"]
  show ?thesis by (simp add: format_f1_def Let_def)
qed

lemma pad_left_format_f1 [simp]: "pad_left w (format_f1 x) = format_f1 x" if "w \<le> 3"
  using that format_f1_length [of x] by (simp add: pad_left_def)

lemma round_half_even_of_int [simp]: "round_half_even (of_int k) = k"
  by (simp add: round_half_even_def)

lemma round_half_even_le: "x < of_int k + 1 / 2 \<Longrightarrow> round_half_even x \<le> k"
proof -
  assume a: "x < of_int k + 1 / 2"
  have f1: "of_int \<lfloor>x\<rfloor> \<le> x" by simp
  have "\<lfloor>x\<rfloor> \<le> k" using a f1 by (simp add: floor_le_iff) 
  moreover have "\<lfloor>x\<rfloor> < k" if "1 / 2 \<le> x - of_int \<lfloor>x\<rfloor>"
  proof -
    have "of_int \<lfloor>x\<rfloor> < (of_int k :: rat)" using that a by linarith
    then show ?thesis by simp
  qed
  ultimately show ?thesis
    by (auto simp add: round_half_even_def Let_def)
qed

lemma round_half_even_ge: "of_int k \<le> x \<Longrightarrow> k \<le> round_half_even x"
proof -
  assume "of_int k \<le> x"
  then have "k \<le> \<lfloor>x\<rfloor>" by (simp add: le_floor_iff)
  then show ?thesis by (auto simp add: round_half_even_def Let_def)
qed

lemma round_half_even_near: "\<bar>of_int (round_half_even x) - x\<bar> \<le> 1 / 2"
proof -
  define d where "d = x - of_int \<lfloor>x\<rfloor>"
  have d: "0 \<le> d" "d < 1" unfolding d_def by linarith+
  show ?thesis
  proof (cases "1 / 2 < d \<or> (d = 1 / 2 \<and> odd \<lfloor>x\<rfloor>)")
    case True
    then have "round_half_even x = \<lfloor>x\<rfloor> + 1"
      by (auto simp add: round_half_even_def d_def Let_def)
    moreover from True have "1 / 2 \<le> d" by auto
    ultimately show ?thesis using d by (simp add: d_def; linarith)
  next
    case False
    then have "round_half_even x = \<lfloor>x\<rfloor>"
      by (auto simp add: round_half_even_def d_def Let_def)
    moreover from False have "d \<le> 1 / 2" by auto
    ultimately show ?thesis using d by (simp add: d_def; linarith)
  qed
qed

lemma bit_length_upper: "n < 2 ^ bit_length n"
proof (induction n rule: bit_length.induct)
  case (1 n)
  show ?case
  proof (cases "n \<le> 0")
    case True
    then show ?thesis by (subst bit_length.simps) simp
  next
    case False
    with 1 have "n div 2 < 2 ^ bit_length (n div 2)" by simp
    then have "n < 2 * 2 ^ bit_length (n div 2)" by linarith
    with False show ?thesis by (subst bit_length.simps) simp
  qed
qed

lemma bit_length_lower: "0 < n \<Longrightarrow> 2 ^ bit_length n \<le> 2 * n"
proof (induction n rule: bit_length.induct)
  case (1 n)
  show ?case
  proof (cases "n = 1")
    case True
    have "bit_length 1 = 1"
      by (simp add: bit_length.simps [of 1] bit_length.simps [of 0])
    with True show ?thesis by simp
  next
    case False
    with 1 have pos: "0 < n div 2" by linarith
    with 1 have "2 ^ bit_length (n div 2) \<le> 2 * (n div 2)" by simp
    then have "2 * 2 ^ bit_length (n div 2) \<le> 2 * n" by linarith
    with 1(2) show ?thesis by (subst bit_length.simps) simp
  qed
qed

lemma bit_length_le: "n < 2 ^ k \<Longrightarrow> bit_length n \<le> k"
proof (cases "0 < n")
  case True
  assume "n < 2 ^ k"
  with bit_length_lower [OF True] have "(2::int) ^ bit_length n < 2 ^ Suc k" by simp
  then have "bit_length n < Suc k" by (rule power_less_imp_less_exp [rotated]) simp
  then show ?thesis by simp
next
  case False
  then show ?thesis by (subst bit_length.simps) simp
qed

subsection \<open>Conversion of an int to a float\<close>

lemma round_53_exact: "\<bar>a\<bar> < 2 ^ 53 \<Longrightarrow> round_53 a = a"
proof -
  assume "\<bar>a\<bar> < 2 ^ 53"
  then have "a < 2 ^ 53" by linarith
  then have "bit_length a \<le> 53" by (rule bit_length_le)
  then show ?thesis by (simp add: round_53_def)
qed

text \<open>The scaled magnitude lies below \<open>2 ^ 53\<close>, and at or above \<open>2 ^ 52\<close> once bits are dropped.\<close>

lemma scaled_upper:
  "(of_int a :: rat) / 2 ^ (bit_length a - 53) < 2 ^ 53"
proof -
  define e where "e = bit_length a - 53"
  have "bit_length a \<le> 53 + e" by (simp add: e_def)
  then have "(2::int) ^ bit_length a \<le> 2 ^ (53 + e)" by (rule power_increasing) simp
  with bit_length_upper [of a] have "a < 2 ^ (53 + e)" by linarith
  then have "(of_int a :: rat) < of_int (2 ^ (53 + e))" by (simp only: of_int_less_iff)
  then have "(of_int a :: rat) < 2 ^ 53 * 2 ^ e" by (simp add: power_add)
  then show ?thesis unfolding e_def [symmetric] by (simp add: divide_less_eq)
qed

lemma scaled_lower:
  assumes "53 < bit_length a"
  shows "(2 :: rat) ^ 52 \<le> of_int a / 2 ^ (bit_length a - 53)"
proof -
  define e where "e = bit_length a - 53"
  from assms have bl: "bit_length a = 53 + e" by (simp add: e_def)
  have "0 < a"
  proof (rule ccontr)
    assume "\<not> 0 < a"
    then have "bit_length a = 0" by (subst bit_length.simps) simp
    with assms show False by simp
  qed
  from bit_length_lower [OF this] bl have "(2::int) ^ (53 + e) \<le> 2 * a" by simp
  then have "(2::int) ^ 52 * 2 ^ e \<le> a" by (simp add: power_add)
  then have "(of_int ((2::int) ^ 52 * 2 ^ e) :: rat) \<le> of_int a" by (simp only: of_int_le_iff)
  then have "(2::rat) ^ 52 * 2 ^ e \<le> of_int a" by simp
  then show ?thesis unfolding e_def [symmetric] by (simp add: le_divide_eq)
qed

lemma bit_length_gt: "2 ^ k \<le> n \<Longrightarrow> k < bit_length n"
proof -
  assume "2 ^ k \<le> n"
  with bit_length_upper [of n] have "(2::int) ^ k < 2 ^ bit_length n" by linarith
  then show ?thesis by (rule power_less_imp_less_exp [rotated]) simp
qed

lemma round_half_even_ge_half:
  "even k \<Longrightarrow> of_int k - 1 / 2 \<le> x \<Longrightarrow> k \<le> round_half_even x"
proof -
  assume ev: "even k" and x: "of_int k - 1 / 2 \<le> x"
  have "of_int (k - 1) \<le> x" using x by simp
  then have f: "k - 1 \<le> \<lfloor>x\<rfloor>" by (simp only: le_floor_iff)
  show ?thesis
  proof (cases "k \<le> \<lfloor>x\<rfloor>")
    case True
    then show ?thesis by (auto simp add: round_half_even_def Let_def)
  next
    case False
    with f have fl: "\<lfloor>x\<rfloor> = k - 1" by simp
    then have "odd \<lfloor>x\<rfloor>" using ev by simp
    moreover have "1 / 2 \<le> x - of_int \<lfloor>x\<rfloor>" using x fl by simp
    ultimately have "round_half_even x = \<lfloor>x\<rfloor> + 1"
      by (auto simp add: round_half_even_def Let_def)
    with fl show ?thesis by simp
  qed
qed

lemma round_53_lt:
  assumes "a < 2 ^ 1024 - 2 ^ 970"
  shows "round_53 a < 2 ^ 1024"
proof -
  define e where "e = bit_length a - 53"
  define y :: rat where "y = of_int a / 2 ^ e"
  define m where "m = round_half_even y"
  have r: "round_53 a = m * 2 ^ e"
    by (simp add: round_53_def Let_def e_def y_def m_def)
  have "a < 2 ^ 1024" using assms by simp
  then have "bit_length a \<le> 1024" by (rule bit_length_le)
  then have e: "e \<le> 971" by (simp add: e_def)
  have y: "y < 2 ^ 53" unfolding y_def e_def by (rule scaled_upper)
  show ?thesis
  proof (cases "e = 971")
    case True
    have "(of_int a :: rat) < of_int (2 ^ 1024 - 2 ^ 970)" using assms by (simp only: of_int_less_iff)
    then have "y < of_int (2 ^ 53 - 1) + 1 / 2"
      by (simp add: y_def True divide_less_eq)
    then have "m \<le> 2 ^ 53 - 1" unfolding m_def by (rule round_half_even_le)
    then have "m * 2 ^ 971 \<le> (2 ^ 53 - 1) * 2 ^ 971" by (rule mult_right_mono) simp
    also have "\<dots> < 2 ^ 1024" by simp
    finally show ?thesis by (simp add: r True)
  next
    case False
    with e have e': "e \<le> 970" by simp
    from y have "y < of_int (2 ^ 53) + 1 / 2" by simp
    then have m: "m \<le> 2 ^ 53" unfolding m_def by (rule round_half_even_le)
    have "(2::int) ^ e \<le> 2 ^ 970" using e' by (rule power_increasing) simp
    with m have "m * 2 ^ e \<le> 2 ^ 53 * 2 ^ 970" by (rule mult_mono) simp_all
    also have "\<dots> < 2 ^ 1024" by simp
    finally show ?thesis by (simp add: r)
  qed
qed

lemma round_53_overflow:
  assumes "2 ^ 1024 - 2 ^ 970 \<le> a"
  shows "2 ^ 1024 \<le> round_53 a"
proof -
  define e where "e = bit_length a - 53"
  define y :: rat where "y = of_int a / 2 ^ e"
  define m where "m = round_half_even y"
  have r: "round_53 a = m * 2 ^ e"
    by (simp add: round_53_def Let_def e_def y_def m_def)
  have "2 ^ 1023 \<le> a" using assms by simp
  then have bl: "1023 < bit_length a" by (rule bit_length_gt)
  then have e: "971 \<le> e" by (simp add: e_def)
  show ?thesis
  proof (cases "e = 971")
    case True
    have "(of_int (2 ^ 1024 - 2 ^ 970) :: rat) \<le> of_int a" using assms by (simp only: of_int_le_iff)
    then have "of_int (2 ^ 53) - 1 / 2 \<le> y"
      by (simp add: y_def True le_divide_eq)
    then have "2 ^ 53 \<le> m" unfolding m_def by (rule round_half_even_ge_half [rotated]) simp
    then have "2 ^ 53 * 2 ^ 971 \<le> m * 2 ^ 971" by (rule mult_right_mono) simp
    then show ?thesis by (simp add: r True)
  next
    case False
    with e have e': "972 \<le> e" by simp
    from bl have "53 < bit_length a" by simp
    then have "(2::rat) ^ 52 \<le> y" unfolding y_def e_def by (rule scaled_lower)
    then have "of_int (2 ^ 52) \<le> y" by simp
    then have m: "2 ^ 52 \<le> m" unfolding m_def by (rule round_half_even_ge)
    have "(2::int) ^ 972 \<le> 2 ^ e" using e' by (rule power_increasing) simp
    from mult_mono [OF m this] m have "2 ^ 52 * 2 ^ 972 \<le> m * 2 ^ e" by simp
    then show ?thesis by (simp add: r)
  qed
qed

lemma round_53_ge_1024:
  assumes "1024 \<le> a"
  shows "1024 \<le> round_53 a"
proof (cases "a < 2 ^ 53")
  case True
  with assms have "\<bar>a\<bar> < 2 ^ 53" by simp
  then have "round_53 a = a" by (rule round_53_exact)
  with assms show ?thesis by simp
next
  case False
  define e where "e = bit_length a - 53"
  define y :: rat where "y = of_int a / 2 ^ e"
  define m where "m = round_half_even y"
  have r: "round_53 a = m * 2 ^ e"
    by (simp add: round_53_def Let_def e_def y_def m_def)
  from False have "2 ^ 53 \<le> a" by simp
  then have "53 < bit_length a" by (rule bit_length_gt)
  then have "(2::rat) ^ 52 \<le> y" unfolding y_def e_def by (rule scaled_lower)
  then have "of_int (2 ^ 52) \<le> y" by simp
  then have m: "2 ^ 52 \<le> m" unfolding m_def by (rule round_half_even_ge)
  have "(1::int) \<le> 2 ^ e" by simp
  from mult_mono [OF m this] m have "2 ^ 52 * 1 \<le> m * 2 ^ e" by simp
  then show ?thesis by (simp add: r)
qed

lemma round_53_nonneg: "0 \<le> a \<Longrightarrow> 0 \<le> round_53 a"
proof -
  assume "0 \<le> a"
  then have "of_int 0 \<le> (of_int a :: rat) / 2 ^ (bit_length a - 53)" by simp
  then have "0 \<le> round_half_even (of_int a / 2 ^ (bit_length a - 53))"
    by (rule round_half_even_ge)
  then show ?thesis by (simp add: round_53_def Let_def)
qed

text \<open>
  The conversion succeeds exactly on the ints of magnitude below \<open>2 ^ 1024 - 2 ^ 970\<close>
  (half an ulp above the largest double), and is the identity below \<open>2 ^ 53\<close>.
\<close>

lemma float_of_int_exact: "\<bar>n\<bar> < 2 ^ 53 \<Longrightarrow> float_of_int n = Inr (of_int n)"
proof -
  assume a: "\<bar>n\<bar> < 2 ^ 53"
  then have "\<bar>\<bar>n\<bar>\<bar> < 2 ^ 53" by simp
  then have "round_53 \<bar>n\<bar> = \<bar>n\<bar>" by (rule round_53_exact)
  with a show ?thesis by (simp add: float_of_int_def Let_def)
qed

lemma float_of_int_overflow:
  "2 ^ 1024 - 2 ^ 970 \<le> \<bar>n\<bar> \<Longrightarrow> float_of_int n = Inl OverflowError"
  using round_53_overflow [of "\<bar>n\<bar>"] by (simp add: float_of_int_def Let_def)

lemma float_of_int_ok:
  assumes "\<bar>n\<bar> < 2 ^ 1024 - 2 ^ 970"
  shows "\<exists>x. float_of_int n = Inr x \<and> \<bar>x\<bar> = of_int (round_53 \<bar>n\<bar>)"
proof -
  have "round_53 \<bar>n\<bar> < 2 ^ 1024" using assms by (rule round_53_lt)
  moreover have "0 \<le> round_53 \<bar>n\<bar>" by (rule round_53_nonneg) simp
  ultimately show ?thesis by (simp add: float_of_int_def Let_def)
qed

lemma float_of_int_Inr_iff:
  "(\<exists>x. float_of_int n = Inr x) \<longleftrightarrow> \<bar>n\<bar> < 2 ^ 1024 - 2 ^ 970"
proof
  assume "\<exists>x. float_of_int n = Inr x"
  then show "\<bar>n\<bar> < 2 ^ 1024 - 2 ^ 970"
    using float_of_int_overflow [of n] by (cases "\<bar>n\<bar> < 2 ^ 1024 - 2 ^ 970") auto
next
  assume "\<bar>n\<bar> < 2 ^ 1024 - 2 ^ 970"
  from float_of_int_ok [OF this] show "\<exists>x. float_of_int n = Inr x" by blast
qed

lemma float_of_int_abs_ge:
  assumes "float_of_int n = Inr x" "1024 \<le> \<bar>n\<bar>"
  shows "1024 \<le> \<bar>x\<bar>"
proof -
  from assms(2) have "1024 \<le> round_53 \<bar>n\<bar>" by (rule round_53_ge_1024)
  then have "(of_int 1024 :: rat) \<le> of_int (round_53 \<bar>n\<bar>)" by (simp only: of_int_le_iff)
  with assms(1) show ?thesis
    by (auto simp add: float_of_int_def Let_def split: if_splits)
qed

subsection \<open>The loop of sizeof_fmt\<close>

lemma format_float_NFloat [simp]: "w \<le> 3 \<Longrightarrow> format_float w (NFloat y) = Inr (format_f1 y)"
  by (simp add: format_float_def)

lemma truediv_1024_NFloat [simp]: "truediv_1024 (NFloat y) = Inr (NFloat (y / 1024))"
  by (simp add: truediv_1024_def)

lemma step_int_small:
  assumes "\<bar>n\<bar> < 1024"
  shows "sizeof_fmt_loop (u # rest) (NInt n) sfx = Inr (format_f1 (of_int n) @ u @ sfx)"
proof -
  from assms have "\<bar>n\<bar> < 2 ^ 53" by simp
  then have "float_of_int n = Inr (of_int n)" by (rule float_of_int_exact)
  then have "format_float 3 (NInt n) = Inr (format_f1 (of_int n))"
    by (simp add: format_float_def)
  with assms show ?thesis by simp
qed

lemma step_int_big:
  assumes "\<not> \<bar>n\<bar> < 1024" "float_of_int n = Inr x"
  shows "sizeof_fmt_loop (u # rest) (NInt n) sfx = sizeof_fmt_loop rest (NFloat (x / 1024)) sfx"
  using assms by (simp add: truediv_1024_def)

lemma sizeof_fmt_loop_float:
  "\<exists>k\<le>length us.
     sizeof_fmt_loop us (NFloat y) sfx = Inr (format_f1 (y / 1024 ^ k) @ (us @ [''Yi'']) ! k @ sfx)
     \<and> (\<forall>j<k. 1024 \<le> \<bar>y\<bar> / 1024 ^ j)
     \<and> (k < length us \<longrightarrow> \<bar>y\<bar> / 1024 ^ k < 1024)"
proof (induction us arbitrary: y)
  case Nil
  show ?case by simp
next
  case (Cons u us)
  show ?case
  proof (cases "\<bar>y\<bar> < 1024")
    case True
    show ?thesis
    proof (intro exI conjI)
      show "0 \<le> length (u # us)" by simp
      show "sizeof_fmt_loop (u # us) (NFloat y) sfx
              = Inr (format_f1 (y / 1024 ^ 0) @ ((u # us) @ [''Yi'']) ! 0 @ sfx)"
        using True by simp
      show "\<forall>j<0. 1024 \<le> \<bar>y\<bar> / 1024 ^ j" by simp
      show "0 < length (u # us) \<longrightarrow> \<bar>y\<bar> / 1024 ^ 0 < 1024" using True by simp
    qed
  next
    case False
    from Cons.IH [of "y / 1024"] obtain k where k: "k \<le> length us"
      and res: "sizeof_fmt_loop us (NFloat (y / 1024)) sfx
                  = Inr (format_f1 (y / 1024 / 1024 ^ k) @ (us @ [''Yi'']) ! k @ sfx)"
      and big: "\<forall>j<k. 1024 \<le> \<bar>y / 1024\<bar> / 1024 ^ j"
      and small: "k < length us \<longrightarrow> \<bar>y / 1024\<bar> / 1024 ^ k < 1024"
      by blast
    show ?thesis
    proof (intro exI conjI)
      show "Suc k \<le> length (u # us)" using k by simp
      show "sizeof_fmt_loop (u # us) (NFloat y) sfx
              = Inr (format_f1 (y / 1024 ^ Suc k) @ ((u # us) @ [''Yi'']) ! Suc k @ sfx)"
        using False res by simp
      show "\<forall>j<Suc k. 1024 \<le> \<bar>y\<bar> / 1024 ^ j"
      proof (intro allI impI)
        fix j assume "j < Suc k"
        show "1024 \<le> \<bar>y\<bar> / 1024 ^ j"
        proof (cases j)
          case 0
          with False show ?thesis by simp
        next
          case (Suc i)
          with \<open>j < Suc k\<close> big have "1024 \<le> \<bar>y / 1024\<bar> / 1024 ^ i" by simp
          with Suc show ?thesis by simp
        qed
      qed
      show "Suc k < length (u # us) \<longrightarrow> \<bar>y\<bar> / 1024 ^ Suc k < 1024"
        using small by simp
    qed
  qed
qed

lemma length_units: "length units = 8"
  by (simp add: units_def)

lemma sizeof_fmt_scaled:
  assumes "as_float num = Inr x"
  shows "\<exists>k\<le>8.
     sizeof_fmt num sfx = Inr (format_f1 (x / 1024 ^ k) @ (units @ [''Yi'']) ! k @ sfx)
     \<and> (\<forall>j<k. 1024 \<le> \<bar>x\<bar> / 1024 ^ j)
     \<and> (k < 8 \<longrightarrow> \<bar>x\<bar> / 1024 ^ k < 1024)"
proof (cases num)
  case (NFloat y)
  with assms have "x = y" by simp
  with NFloat sizeof_fmt_loop_float [of units y sfx] show ?thesis
    by (simp add: sizeof_fmt_def length_units)
next
  case (NInt n)
  with assms have fl: "float_of_int n = Inr x" by simp
  define rest where "rest = tl units"
  have units: "units = [] # rest" by (simp add: rest_def units_def)
  have rest: "length rest = 7" by (simp add: rest_def units_def)
  have call: "sizeof_fmt num sfx = sizeof_fmt_loop ([] # rest) (NInt n) sfx"
    by (simp only: sizeof_fmt_def units NInt)
  show ?thesis
  proof (cases "\<bar>n\<bar> < 1024")
    case True
    then have "\<bar>n\<bar> < 2 ^ 53" by simp
    from float_of_int_exact [OF this] fl have x: "x = of_int n" by simp
    have small: "\<bar>x\<bar> < 1024" using True unfolding x by (simp flip: of_int_abs)
    have eq: "sizeof_fmt num sfx = Inr (format_f1 x @ sfx)"
      unfolding call x using step_int_small [OF True, of "[]" rest sfx] by simp
    have nth: "(units @ [''Yi'']) ! 0 = []" by (simp only: units append_Cons nth_Cons_0)
    show ?thesis
    proof (intro exI conjI)
      show "(0::nat) \<le> 8" by simp
      show "sizeof_fmt num sfx = Inr (format_f1 (x / 1024 ^ 0) @ (units @ [''Yi'']) ! 0 @ sfx)"
        unfolding eq nth by simp
      show "\<forall>j<0. 1024 \<le> \<bar>x\<bar> / 1024 ^ j" by simp
      show "(0::nat) < 8 \<longrightarrow> \<bar>x\<bar> / 1024 ^ 0 < 1024" using small by simp
    qed
  next
    case False
    then have big0: "1024 \<le> \<bar>x\<bar>" using float_of_int_abs_ge [OF fl] by simp
    from sizeof_fmt_loop_float [of rest "x / 1024" sfx]
    obtain k where k: "k \<le> length rest"
      and res: "sizeof_fmt_loop rest (NFloat (x / 1024)) sfx
                  = Inr (format_f1 (x / 1024 / 1024 ^ k) @ (rest @ [''Yi'']) ! k @ sfx)"
      and big: "\<forall>j<k. 1024 \<le> \<bar>x / 1024\<bar> / 1024 ^ j"
      and small: "k < length rest \<longrightarrow> \<bar>x / 1024\<bar> / 1024 ^ k < 1024"
      by blast
    have nth: "(units @ [''Yi'']) ! Suc k = (rest @ [''Yi'']) ! k"
      by (simp only: units append_Cons nth_Cons_Suc)
    show ?thesis
    proof (intro exI conjI)
      show "Suc k \<le> 8" using k rest by simp
      show "sizeof_fmt num sfx
              = Inr (format_f1 (x / 1024 ^ Suc k) @ (units @ [''Yi'']) ! Suc k @ sfx)"
        unfolding call step_int_big [OF False fl] res nth by simp
      show "\<forall>j<Suc k. 1024 \<le> \<bar>x\<bar> / 1024 ^ j"
      proof (intro allI impI)
        fix j assume "j < Suc k"
        show "1024 \<le> \<bar>x\<bar> / 1024 ^ j"
        proof (cases j)
          case 0
          with big0 show ?thesis by simp
        next
          case (Suc i)
          with \<open>j < Suc k\<close> big have "1024 \<le> \<bar>x / 1024\<bar> / 1024 ^ i" by simp
          with Suc show ?thesis by simp
        qed
      qed
      show "Suc k < 8 \<longrightarrow> \<bar>x\<bar> / 1024 ^ Suc k < 1024"
        using small rest by simp
    qed
  qed
qed

subsection \<open>Evaluating the formatter\<close>

lemma digits10_digit: "n < 10 \<Longrightarrow> digits10 n = [digit_char n]"
  by (subst digits10.simps) simp

lemma digits10_step: "10 \<le> n \<Longrightarrow> digits10 n = digits10 (n div 10) @ [digit_char (n mod 10)]"
  by (subst digits10.simps) simp

text \<open>Rounding a fraction of ints, by integer division.\<close>

lemma round_half_even_fraction:
  assumes "0 < q"
  shows "round_half_even (of_int p / of_int q) =
           (if q < 2 * (p mod q) \<or> (2 * (p mod q) = q \<and> odd (p div q)) then p div q + 1 else p div q)"
proof -
  have fl: "\<lfloor>(of_int p :: rat) / of_int q\<rfloor> = p div q" by (rule floor_divide_of_int_eq)
  have "(of_int p :: rat) = of_int (p div q * q + p mod q)" by (simp only: div_mult_mod_eq)
  also have "\<dots> = of_int (p div q) * of_int q + of_int (p mod q)"
    by (simp only: of_int_add of_int_mult)
  finally have "(of_int p :: rat) / of_int q = of_int (p div q) + of_int (p mod q) / of_int q"
    using assms by (simp add: field_simps)
  then have d: "(of_int p :: rat) / of_int q - of_int (p div q) = of_int (p mod q) / of_int q"
    by simp
  have gt: "(1 / 2 < (of_int (p mod q) :: rat) / of_int q) \<longleftrightarrow> q < 2 * (p mod q)"
  proof -
    have "(1 / 2 < (of_int (p mod q) :: rat) / of_int q) \<longleftrightarrow> (of_int q :: rat) < of_int (2 * (p mod q))"
      using assms by (simp add: field_simps)
    then show ?thesis by (simp only: of_int_less_iff)
  qed
  have eq: "((of_int (p mod q) :: rat) / of_int q = 1 / 2) \<longleftrightarrow> 2 * (p mod q) = q"
  proof -
    have "((of_int (p mod q) :: rat) / of_int q = 1 / 2) \<longleftrightarrow> (of_int (2 * (p mod q)) :: rat) = of_int q"
      using assms by (auto simp add: field_simps)
    then show ?thesis by (simp only: of_int_eq_iff)
  qed
  show ?thesis
    unfolding round_half_even_def Let_def fl d gt eq by simp
qed

lemma format_f1_fraction:
  assumes "0 \<le> p" "0 < q"
  shows "format_f1 (of_int p / of_int q) =
     (let f = (10 * p) div q; r = (10 * p) mod q;
          t = nat (if q < 2 * r \<or> (2 * r = q \<and> odd f) then f + 1 else f)
      in digits10 (t div 10) @ ''.'' @ digits10 (t mod 10))"
proof -
  have nn: "\<not> (of_int p :: rat) / of_int q < 0" using assms by (simp add: divide_less_0_iff)
  have "\<bar>(of_int p :: rat) / of_int q\<bar> * 10 = of_int (10 * p) / of_int q"
    using assms by simp
  then have "round_half_even (\<bar>(of_int p :: rat) / of_int q\<bar> * 10) =
      (if q < 2 * ((10 * p) mod q) \<or> (2 * ((10 * p) mod q) = q \<and> odd ((10 * p) div q))
       then (10 * p) div q + 1 else (10 * p) div q)"
    using round_half_even_fraction [OF assms(2), of "10 * p"] by simp
  then show ?thesis
    unfolding format_f1_def Let_def using nn by simp
qed

lemma format_f1_of_nat: "format_f1 (of_nat n) = digits10 n @ ''.0''"
proof -
  have n10: "nat (10 * int n) = 10 * n" by simp
  have "format_f1 (of_int (int n) / of_int 1) = digits10 n @ ''.0''"
    by (subst format_f1_fraction) (simp_all add: digits10_digit digit_char_def Let_def n10)
  then show ?thesis by simp
qed

text \<open>An int with at most 53 significant bits converts exactly.\<close>

lemma round_53_dyadic:
  assumes "0 \<le> m" "m < 2 ^ 53"
  shows "round_53 (m * 2 ^ k) = m * 2 ^ k"
proof -
  define a where "a = m * 2 ^ k"
  define e where "e = bit_length a - 53"
  have "a < 2 ^ 53 * 2 ^ k" unfolding a_def using assms(2) by simp
  then have "a < 2 ^ (53 + k)" by (simp add: power_add)
  then have "bit_length a \<le> 53 + k" by (rule bit_length_le)
  then have "e \<le> k" by (simp add: e_def)
  then obtain d where k: "k = e + d" using le_Suc_ex by blast
  have "(of_int a :: rat) / 2 ^ e = of_int (m * 2 ^ d)"
    by (simp add: a_def k power_add)
  then have "round_half_even (of_int a / 2 ^ e) = m * 2 ^ d"
    by (simp only: round_half_even_of_int)
  then have "round_53 a = m * 2 ^ d * 2 ^ e"
    by (simp add: round_53_def Let_def e_def)
  also have "\<dots> = a" by (simp add: a_def k power_add)
  finally show ?thesis by (simp add: a_def)
qed

lemma float_of_int_dyadic:
  assumes "0 \<le> m" "m < 2 ^ 53" "k \<le> 971"
  shows "float_of_int (m * 2 ^ k) = Inr (of_int (m * 2 ^ k))"
proof -
  have nn: "0 \<le> m * 2 ^ k" using assms(1) by simp
  have "(2::int) ^ k \<le> 2 ^ 971" using assms(3) by (rule power_increasing) simp
  with assms(1,2) have "m * 2 ^ k < 2 ^ 53 * 2 ^ 971"
    by (meson mult_less_le_imp_less zero_less_numeral zero_less_power)
  then have lt: "\<not> 2 ^ 1024 \<le> m * 2 ^ k" by simp
  have "round_53 \<bar>m * 2 ^ k\<bar> = m * 2 ^ k"
    using round_53_dyadic [OF assms(1,2), of k] nn by (simp only: abs_of_nonneg)
  with lt nn show ?thesis by (simp add: float_of_int_def Let_def)
qed

lemma sizeof_fmt_small_nat:
  assumes "n < 1024"
  shows "sizeof_fmt (NInt (int n)) sfx = Inr (digits10 n @ ''.0'' @ sfx)"
proof -
  have "\<bar>int n\<bar> < 1024" using assms by simp
  from step_int_small [OF this, of "[]" "tl units" sfx]
  have "sizeof_fmt_loop units (NInt (int n)) sfx = Inr (format_f1 (of_int (int n)) @ sfx)"
    by (simp add: units_def)
  moreover have "format_f1 (of_int (int n)) = digits10 n @ ''.0''"
    using format_f1_of_nat [of n] by simp
  ultimately show ?thesis by (simp add: sizeof_fmt_def)
qed

lemma sizeof_fmt_big_int:
  assumes "float_of_int n = Inr x" "1024 \<le> \<bar>n\<bar>"
  shows "sizeof_fmt (NInt n) sfx = sizeof_fmt_loop (tl units) (NFloat (x / 1024)) sfx"
proof -
  have "\<not> \<bar>n\<bar> < 1024" using assms(2) by simp
  from step_int_big [OF this assms(1), of "[]" "tl units" sfx]
  show ?thesis by (simp add: sizeof_fmt_def units_def)
qed

lemma sizeof_fmt_0: "sizeof_fmt (NInt 0) ''B'' = Inr ''0.0B''"
  using sizeof_fmt_small_nat [of 0 "''B''"] by (simp add: digits10_digit digit_char_def)

lemma sizeof_fmt_1023: "sizeof_fmt (NInt 1023) ''B'' = Inr ''1023.0B''"
  using sizeof_fmt_small_nat [of 1023 "''B''"]
  by (simp add: digits10_step digits10_digit digit_char_def)

lemma sizeof_fmt_1024: "sizeof_fmt (NInt 1024) ''B'' = Inr ''1.0KiB''"
proof -
  have "float_of_int 1024 = Inr 1024" using float_of_int_exact [of 1024] by simp
  from sizeof_fmt_big_int [OF this] show ?thesis
    using format_f1_of_nat [of 1] by (simp add: units_def digits10_digit digit_char_def)
qed

lemma sizeof_fmt_1536: "sizeof_fmt (NInt 1536) ''B'' = Inr ''1.5KiB''"
proof -
  have "float_of_int 1536 = Inr 1536" using float_of_int_exact [of 1536] by simp
  from sizeof_fmt_big_int [OF this] show ?thesis
    using format_f1_fraction [of 3 2] by (simp add: units_def digits10_digit digit_char_def)
qed

lemma sizeof_fmt_1024_pow_8: "sizeof_fmt (NInt (1024 ^ 8)) ''B'' = Inr ''1.0YiB''"
proof -
  have "float_of_int (1 * 2 ^ 80) = Inr (of_int (1 * 2 ^ 80))"
    by (rule float_of_int_dyadic) simp_all
  then have "float_of_int (1024 ^ 8) = Inr (1024 ^ 8)" by simp
  from sizeof_fmt_big_int [OF this] show ?thesis
    using format_f1_of_nat [of 1] by (simp add: units_def digits10_digit digit_char_def)
qed

lemma sizeof_fmt_overflow:
  assumes "2 ^ 1024 - 2 ^ 970 \<le> \<bar>n\<bar>"
  shows "sizeof_fmt (NInt n) sfx = Inl OverflowError"
proof -
  have "\<not> \<bar>n\<bar> < 1024" using assms by simp
  moreover have "float_of_int n = Inl OverflowError" using assms by (rule float_of_int_overflow)
  ultimately show ?thesis
    by (simp add: sizeof_fmt_def units_def truediv_1024_def)
qed

text \<open>
  One decimal place: the text is a sign, the digits of an integer part, a point and a single
  digit, and the number it denotes is within half a tenth of the magnitude formatted.
\<close>

lemma format_f1_one_decimal:
  "\<exists>t. format_f1 x = (if x < 0 then ''-'' else []) @ digits10 (t div 10) @ ''.'' @ [digit_char (t mod 10)]
       \<and> \<bar>of_nat t / 10 - \<bar>x\<bar>\<bar> \<le> 1 / 20"
proof -
  define r where "r = round_half_even (\<bar>x\<bar> * 10)"
  define t where "t = nat r"
  have "of_int 0 \<le> \<bar>x\<bar> * 10" by simp
  then have "0 \<le> r" unfolding r_def by (rule round_half_even_ge)
  then have rt: "(of_int r :: rat) = of_nat t" by (simp add: t_def)
  have "\<bar>of_int r - \<bar>x\<bar> * 10\<bar> \<le> 1 / 2" unfolding r_def by (rule round_half_even_near)
  then have near: "\<bar>of_nat t / 10 - \<bar>x\<bar>\<bar> \<le> 1 / 20" unfolding rt by linarith
  have "t mod 10 < 10" by simp
  then have "digits10 (t mod 10) = [digit_char (t mod 10)]" by (rule digits10_digit)
  then have "format_f1 x = (if x < 0 then ''-'' else []) @ digits10 (t div 10) @ ''.'' @ [digit_char (t mod 10)]"
    by (simp add: format_f1_def Let_def t_def r_def)
  with near show ?thesis by blast
qed

text \<open>
  Claim C2, as the code has it. For every int of magnitude below \<open>2 ^ 1024 - 2 ^ 970\<close> (the
  ints Python converts to a float; below \<open>2 ^ 53\<close> the conversion is exact) and every finite
  float, with \<open>x\<close> the value as a float: \<^verbatim>\<open>sizeof_fmt\<close> returns; it has divided by 1024 some \<open>k\<close>
  times, at most 8, every magnitude before the last being at least 1024 and, when fewer than
  8 divisions were made, the last one below 1024; the text is \<open>x / 1024 ^ k\<close> with one decimal
  place, then the \<open>k\<close>-th of the units \<^verbatim>\<open>""\<close>, \<^verbatim>\<open>Ki\<close>, \<^verbatim>\<open>Mi\<close>, \<^verbatim>\<open>Gi\<close>, \<^verbatim>\<open>Ti\<close>, \<^verbatim>\<open>Pi\<close>, \<^verbatim>\<open>Ei\<close>, \<^verbatim>\<open>Zi\<close>, \<^verbatim>\<open>Yi\<close>
  (so \<^verbatim>\<open>Yi\<close> after 8 divisions, whatever the size), then \<^verbatim>\<open>B\<close>. The values 0, 1023, 1024, 1536
  and \<open>1024 ^ 8\<close> give \<^verbatim>\<open>0.0B\<close>, \<^verbatim>\<open>1023.0B\<close>, \<^verbatim>\<open>1.0KiB\<close>, \<^verbatim>\<open>1.5KiB\<close> and \<^verbatim>\<open>1.0YiB\<close>.
\<close>

theorem sizeof_fmt_spec:
  "(as_float num = Inr x \<longrightarrow>
      (\<exists>k\<le>8. sizeof_fmt num ''B'' = Inr (format_f1 (x / 1024 ^ k) @ (units @ [''Yi'']) ! k @ ''B'')
             \<and> (\<forall>j<k. 1024 \<le> \<bar>x\<bar> / 1024 ^ j)
             \<and> (k < 8 \<longrightarrow> \<bar>x\<bar> / 1024 ^ k < 1024)))
   \<and> ((\<exists>y. as_float (NInt n) = Inr y) \<longleftrightarrow> \<bar>n\<bar> < 2 ^ 1024 - 2 ^ 970)
   \<and> (\<bar>n\<bar> < 2 ^ 53 \<longrightarrow> as_float (NInt n) = Inr (of_int n))
   \<and> as_float (NFloat x) = Inr x
   \<and> (\<exists>t. format_f1 x = (if x < 0 then ''-'' else []) @ digits10 (t div 10) @ ''.'' @ [digit_char (t mod 10)]
           \<and> \<bar>of_nat t / 10 - \<bar>x\<bar>\<bar> \<le> 1 / 20)
   \<and> units @ [''Yi''] = ['''', ''Ki'', ''Mi'', ''Gi'', ''Ti'', ''Pi'', ''Ei'', ''Zi'', ''Yi'']
   \<and> sizeof_fmt (NInt 0) ''B'' = Inr ''0.0B''
   \<and> sizeof_fmt (NInt 1023) ''B'' = Inr ''1023.0B''
   \<and> sizeof_fmt (NInt 1024) ''B'' = Inr ''1.0KiB''
   \<and> sizeof_fmt (NInt 1536) ''B'' = Inr ''1.5KiB''
   \<and> sizeof_fmt (NInt (1024 ^ 8)) ''B'' = Inr ''1.0YiB''"
proof (intro conjI impI)
  assume "as_float num = Inr x"
  then show "\<exists>k\<le>8. sizeof_fmt num ''B'' = Inr (format_f1 (x / 1024 ^ k) @ (units @ [''Yi'']) ! k @ ''B'')
             \<and> (\<forall>j<k. 1024 \<le> \<bar>x\<bar> / 1024 ^ j)
             \<and> (k < 8 \<longrightarrow> \<bar>x\<bar> / 1024 ^ k < 1024)"
    by (rule sizeof_fmt_scaled)
next
  show "(\<exists>y. as_float (NInt n) = Inr y) \<longleftrightarrow> \<bar>n\<bar> < 2 ^ 1024 - 2 ^ 970"
    using float_of_int_Inr_iff [of n] by simp
next
  assume "\<bar>n\<bar> < 2 ^ 53"
  then show "as_float (NInt n) = Inr (of_int n)" by (simp add: float_of_int_exact)
next
  show "as_float (NFloat x) = Inr x" by simp
next
  show "\<exists>t. format_f1 x = (if x < 0 then ''-'' else []) @ digits10 (t div 10) @ ''.'' @ [digit_char (t mod 10)]
           \<and> \<bar>of_nat t / 10 - \<bar>x\<bar>\<bar> \<le> 1 / 20"
    by (rule format_f1_one_decimal)
next
  show "units @ [''Yi''] = ['''', ''Ki'', ''Mi'', ''Gi'', ''Ti'', ''Pi'', ''Ei'', ''Zi'', ''Yi'']"
    by (simp add: units_def)
qed (rule sizeof_fmt_0 sizeof_fmt_1023 sizeof_fmt_1024 sizeof_fmt_1536 sizeof_fmt_1024_pow_8)+

theorem sizeof_fmt_spec_witness:
  "as_float (NInt 3565158) = Inr 3565158
   \<and> (\<exists>k\<le>8. sizeof_fmt (NInt 3565158) ''B''
                = Inr (format_f1 (3565158 / 1024 ^ k) @ (units @ [''Yi'']) ! k @ ''B'')
             \<and> (\<forall>j<k. 1024 \<le> \<bar>3565158 :: rat\<bar> / 1024 ^ j)
             \<and> (k < 8 \<longrightarrow> \<bar>3565158 :: rat\<bar> / 1024 ^ k < 1024))
   \<and> sizeof_fmt (NInt 3565158) ''B'' = Inr ''3.4MiB''"
proof -
  have fl: "float_of_int 3565158 = Inr 3565158"
    using float_of_int_exact [of 3565158] by simp
  then have h: "as_float (NInt 3565158) = Inr 3565158" by simp
  have "as_float (NInt 3565158) = Inr 3565158 \<longrightarrow>
      (\<exists>k\<le>8. sizeof_fmt (NInt 3565158) ''B''
                = Inr (format_f1 (3565158 / 1024 ^ k) @ (units @ [''Yi'']) ! k @ ''B'')
             \<and> (\<forall>j<k. 1024 \<le> \<bar>3565158 :: rat\<bar> / 1024 ^ j)
             \<and> (k < 8 \<longrightarrow> \<bar>3565158 :: rat\<bar> / 1024 ^ k < 1024))"
    using sizeof_fmt_spec [of "NInt 3565158" 3565158 0] by (rule conjunct1)
  from this h have ex: "\<exists>k\<le>8. sizeof_fmt (NInt 3565158) ''B''
                = Inr (format_f1 (3565158 / 1024 ^ k) @ (units @ [''Yi'']) ! k @ ''B'')
             \<and> (\<forall>j<k. 1024 \<le> \<bar>3565158 :: rat\<bar> / 1024 ^ j)
             \<and> (k < 8 \<longrightarrow> \<bar>3565158 :: rat\<bar> / 1024 ^ k < 1024)"
    by (rule mp)
  have val: "sizeof_fmt (NInt 3565158) ''B'' = Inr ''3.4MiB''"
    using sizeof_fmt_big_int [OF fl, of "''B''"] format_f1_fraction [of 1782579 524288]
    by (simp add: units_def digits10_digit digit_char_def)
  from h ex val show ?thesis by (intro conjI)
qed

text \<open>
  Not for every numeric input: an int of magnitude \<open>2 ^ 1024 - 2 ^ 970\<close> or more is not below
  1024, so the loop divides it, \<^verbatim>\<open>num /= 1024.0\<close> converts it to a float first, and that raises
  \<^verbatim>\<open>OverflowError\<close>. No unit is reached.
\<close>

theorem sizeof_fmt_huge_int_raises:
  "sizeof_fmt (NInt (2 ^ 1024)) ''B'' = Inl OverflowError"
  by (rule sizeof_fmt_overflow) simp

lemma sizeof_fmt_500: "sizeof_fmt (NInt 500) ''B'' = Inr ''500.0B''"
  using sizeof_fmt_small_nat [of 500 "''B''"]
  by (simp add: digits10_step digits10_digit digit_char_def)

lemma sizeof_fmt_1000: "sizeof_fmt (NInt 1000) ''B'' = Inr ''1000.0B''"
  using sizeof_fmt_small_nat [of 1000 "''B''"]
  by (simp add: digits10_step digits10_digit digit_char_def)


lemma sizeof_fmt_2048: "sizeof_fmt (NInt 2048) ''B'' = Inr ''2.0KiB''"
proof -
  have "float_of_int 2048 = Inr 2048" using float_of_int_exact [of 2048] by simp
  from sizeof_fmt_big_int [OF this] show ?thesis
    using format_f1_of_nat [of 2] by (simp add: units_def digits10_digit digit_char_def)
qed

lemmas event_simps =
  progress_hook_def size_str_def total_of_def downloaded_of_def py_or_def dict_get_def
  dict_get_default_def

subsection \<open>Engine options\<close>

lemma format_choices_set:
  "set format_choices = {''best'', ''bestvideo'', ''bestaudio'', ''720'', ''1080'', ''audio''}"
  by (auto simp add: format_choices_def)

text \<open>
  The \<^verbatim>\<open>if/elif\<close> chain on its own leaves the options unchanged for a value it does not
  know, so no \<^verbatim>\<open>format\<close> key is set; every value \<^verbatim>\<open>parse_args\<close> lets through sets one.
\<close>

lemma format_selection_unknown:
  "f \<notin> set format_choices \<Longrightarrow> format_selection f opts = opts"
  by (simp add: format_selection_def format_choices_def)

lemma build_opts_format_key:
  "format a \<in> set format_choices \<Longrightarrow> build_opts a ''format'' \<noteq> None"
  by (auto simp add: build_opts_def list_formats_opts_def format_selection_def format_choices_def)

lemma parse_args_format:
  "parse_args c = Inr a \<Longrightarrow> format a \<in> set format_choices"
  by (auto simp add: parse_args_def Let_def split: if_splits)

text \<open>
  Claim C5. The options built for \<^verbatim>\<open>-f audio\<close> and for \<^verbatim>\<open>-f bestaudio\<close> carry the same format
  selector, \<^verbatim>\<open>bestaudio/best\<close>; the options for \<^verbatim>\<open>bestaudio\<close> have no \<^verbatim>\<open>postprocessors\<close> entry,
  and the options for \<^verbatim>\<open>audio\<close> are those for \<^verbatim>\<open>bestaudio\<close> with one entry added: a single
  post-processor \<^verbatim>\<open>FFmpegExtractAudio\<close> with preferred codec \<^verbatim>\<open>m4a\<close> and preferred quality
  \<^verbatim>\<open>192\<close>. Everything else (output template, retries, flags, hooks) is equal.
\<close>

theorem audio_only_vs_best_audio:
  "build_opts (a\<lparr>format := ''audio''\<rparr>) ''format'' = build_opts (a\<lparr>format := ''bestaudio''\<rparr>) ''format''
   \<and> build_opts (a\<lparr>format := ''bestaudio''\<rparr>) ''format'' = Some (OStr ''bestaudio/best'')
   \<and> build_opts (a\<lparr>format := ''bestaudio''\<rparr>) ''postprocessors'' = None
   \<and> build_opts (a\<lparr>format := ''audio''\<rparr>) =
       (build_opts (a\<lparr>format := ''bestaudio''\<rparr>))
         (''postprocessors'' \<mapsto> ODicts [[(''key'', ''FFmpegExtractAudio''),
                                          (''preferredcodec'', ''m4a''),
                                          (''preferredquality'', ''192'')]])"
  by (auto simp add: build_opts_def list_formats_opts_def format_selection_def base_opts_def
        fun_upd_def)

text \<open>
  Claim C6. For each of the two height caps, \<^verbatim>\<open>720\<close> and \<^verbatim>\<open>1080\<close>, the options carry the selector
  \<^verbatim>\<open>bestvideo[height<=cap]+bestaudio/best[height<=cap]\<close> (in the engine's selector language:
  the best video stream of height at most the cap merged with the best audio stream, else
  the best combined stream of height at most the cap), and no \<^verbatim>\<open>postprocessors\<close> entry.
\<close>

theorem height_capped_selector:
  "cap = ''720'' \<or> cap = ''1080'' \<Longrightarrow>
     build_opts (a\<lparr>format := cap\<rparr>) ''format'' =
       Some (OStr (''bestvideo[height<='' @ cap @ '']+bestaudio/best[height<='' @ cap @ '']''))
     \<and> build_opts (a\<lparr>format := cap\<rparr>) ''postprocessors'' = None"
  by (auto simp add: build_opts_def list_formats_opts_def format_selection_def base_opts_def)

theorem height_capped_selector_witness:
  "build_opts \<lparr>url = ''https://youtu.be/x'', format = ''1080'', output_arg = ''%(title)s.%(ext)s'',
                list_formats = False, no_playlist = False\<rparr> ''format'' =
     Some (OStr ''bestvideo[height<=1080]+bestaudio/best[height<=1080]'')
   \<and> build_opts \<lparr>url = ''https://youtu.be/x'', format = ''1080'', output_arg = ''%(title)s.%(ext)s'',
                list_formats = False, no_playlist = False\<rparr> ''postprocessors'' = None"
  using height_capped_selector [of "''1080''"
      "\<lparr>url = ''https://youtu.be/x'', format = ''best'', output_arg = ''%(title)s.%(ext)s'',
        list_formats = False, no_playlist = False\<rparr>"]
  by simp

text \<open>
  Claim C7. A value given to \<^verbatim>\<open>-f/--format\<close> outside the six choices never reaches the
  \<^verbatim>\<open>if/elif\<close> chain: \<^verbatim>\<open>parse_args\<close> rejects it, no engine options are derived and \<^verbatim>\<open>main\<close> ends
  at once with exit status 2, having created no engine and printed nothing to standard
  output.
\<close>

theorem unsupported_format_fails_fast:
  "f \<notin> {''best'', ''bestvideo'', ''bestaudio'', ''720'', ''1080'', ''audio''} \<Longrightarrow>
     configure (c\<lparr>cli_format := Some f\<rparr>) = Inl 2
     \<and> main eng (c\<lparr>cli_format := Some f\<rparr>) out = (out, Exit 2)"
  by (simp add: configure_def main_def parse_args_def format_choices_def)

theorem unsupported_format_fails_fast_witness:
  "configure \<lparr>cli_url = ''https://youtu.be/x'', cli_format = Some ''480'', cli_output = None,
              cli_list_formats = False, cli_no_playlist = False\<rparr> = Inl 2
   \<and> main \<lparr>create = (\<lambda>opts. None), extract_info = (\<lambda>opts u dl. ([], Inr (Info None None None)))\<rparr>
        \<lparr>cli_url = ''https://youtu.be/x'', cli_format = Some ''480'', cli_output = None,
         cli_list_formats = False, cli_no_playlist = False\<rparr> [] = ([], Exit 2)"
  using unsupported_format_fails_fast [of "''480''"
      "\<lparr>cli_url = ''https://youtu.be/x'', cli_format = None, cli_output = None,
        cli_list_formats = False, cli_no_playlist = False\<rparr>"
      "\<lparr>create = (\<lambda>opts. None), extract_info = (\<lambda>opts u dl. ([], Inr (Info None None None)))\<rparr>"
      "[]"]
  by simp

subsection \<open>The size field\<close>

lemma falsy_opt_dict_get: "falsy_opt (d k) \<longleftrightarrow> \<not> truthy (dict_get d k)"
  by (simp add: falsy_opt_def dict_get_def split: option.splits)

lemma formattable_iff:
  "formattable v \<longleftrightarrow> (\<exists>n. v = Some (PyInt n) \<and> \<bar>n\<bar> < 2 ^ 1024 - 2 ^ 970)"
  by (auto simp add: formattable_def split: option.splits pyval.splits)

lemma sizeof_fmt_returns:
  assumes "\<bar>n\<bar> < 2 ^ 1024 - 2 ^ 970"
  shows "\<exists>s. sizeof_fmt (NInt n) sfx = Inr s"
proof -
  from float_of_int_ok [OF assms] obtain x where "as_float (NInt n) = Inr x" by auto
  from sizeof_fmt_scaled [OF this, of sfx] show ?thesis by blast
qed



lemma downloaded_of_count:
  "count_is (d ''downloaded_bytes'') n \<Longrightarrow> downloaded_of d = PyInt n"
  by (auto simp add: count_is_def downloaded_of_def py_or_def falsy_opt_dict_get dict_get_def)


lemma total_of_truthy:
  "truthy (total_of d) \<longleftrightarrow> \<not> (falsy_opt (d ''total_bytes'') \<and> falsy_opt (d ''total_bytes_estimated''))"
  by (simp add: total_of_def py_or_def falsy_opt_dict_get)

lemma total_of_exact:
  "d ''total_bytes'' = Some (PyInt t) \<Longrightarrow> t \<noteq> 0 \<Longrightarrow> total_of d = PyInt t"
  by (simp add: total_of_def py_or_def dict_get_def)






lemma text_field_py_str:
  "text_field d k dflt = Some p \<Longrightarrow> py_str (dict_get_default d k (PyStr dflt)) = Inr p"
  by (auto simp add: text_field_def dict_get_default_def split: option.splits pyval.splits)

subsection \<open>The progress hook: status and layout\<close>

text \<open>
  Claim C8. An event whose \<^verbatim>\<open>status\<close> is neither \<^verbatim>\<open>downloading\<close> nor \<^verbatim>\<open>finished\<close> (any other
  string, or a value that is not a string) makes the hook return normally with standard
  output unchanged.
\<close>

theorem unrecognised_status_ignored:
  "d ''status'' = Some s \<Longrightarrow> s \<noteq> PyStr ''downloading'' \<Longrightarrow> s \<noteq> PyStr ''finished'' \<Longrightarrow>
     progress_hook d out = Inr out"
  by (simp add: progress_hook_def)

theorem unrecognised_status_ignored_witness:
  "progress_hook [''status'' \<mapsto> PyStr ''error'', ''downloaded_bytes'' \<mapsto> PyInt 10] ''abc'' = Inr ''abc''"
  using unrecognised_status_ignored
    [of "[''status'' \<mapsto> PyStr ''error'', ''downloaded_bytes'' \<mapsto> PyInt 10]" "PyStr ''error''" "''abc''"]
  by simp

lemma hook_downloading:
  assumes "d ''status'' = Some (PyStr ''downloading'')"
  shows "progress_hook d out =
     bind_result (size_str d) (\<lambda>sz.
     bind_result (py_str (dict_get_default d ''_percent_str'' (PyStr ''?%''))) (\<lambda>p.
     bind_result (py_str (dict_get_default d ''_speed_str'' (PyStr ''? B/s''))) (\<lambda>sp.
     bind_result (py_str (dict_get_default d ''_eta_str'' (PyStr ''?s''))) (\<lambda>e.
       Inr (out @ CR # p @ ''  '' @ sz @ ''  '' @ sp @ ''  ETA '' @ e)))))"
  using assms by (simp add: progress_hook_def Let_def)

lemma hook_line_general:
  assumes "d ''status'' = Some (PyStr ''downloading'')" "size_str d = Inr sz"
    "py_str (dict_get_default d ''_percent_str'' (PyStr ''?%'')) = Inr p"
    "py_str (dict_get_default d ''_speed_str'' (PyStr ''? B/s'')) = Inr sp"
    "py_str (dict_get_default d ''_eta_str'' (PyStr ''?s'')) = Inr e"
  shows "progress_hook d out = Inr (out @ CR # spec_status_line p sz sp e)"
  using assms by (simp add: hook_downloading spec_status_line_def)

lemma hook_line:
  assumes "downloading_with d p sp e" "size_str d = Inr sz"
  shows "progress_hook d out = Inr (out @ CR # spec_status_line p sz sp e)"
proof (rule hook_line_general)
  show "d ''status'' = Some (PyStr ''downloading'')" using assms(1) by (simp add: downloading_with_def)
  show "size_str d = Inr sz" by (rule assms(2))
  show "py_str (dict_get_default d ''_percent_str'' (PyStr ''?%'')) = Inr p"
    using assms(1) by (simp add: downloading_with_def text_field_py_str)
  show "py_str (dict_get_default d ''_speed_str'' (PyStr ''? B/s'')) = Inr sp"
    using assms(1) by (simp add: downloading_with_def text_field_py_str)
  show "py_str (dict_get_default d ''_eta_str'' (PyStr ''?s'')) = Inr e"
    using assms(1) by (simp add: downloading_with_def text_field_py_str)
qed





text \<open>The size field of an event with a non-zero exact total, and of one with no total.\<close>

lemma size_str_exact_total:
  assumes "count_is (d ''downloaded_bytes'') n" "\<bar>n\<bar> < 2 ^ 1024 - 2 ^ 970"
    "d ''total_bytes'' = Some (PyInt t)" "t \<noteq> 0" "\<bar>t\<bar> < 2 ^ 1024 - 2 ^ 970"
  shows "\<exists>a b. sizeof_fmt (NInt n) ''B'' = Inr a \<and> sizeof_fmt (NInt t) ''B'' = Inr b
           \<and> size_str d = Inr (a @ '' / '' @ b)"
proof -
  from sizeof_fmt_returns [OF assms(2)] obtain a where a: "sizeof_fmt (NInt n) ''B'' = Inr a" by blast
  from sizeof_fmt_returns [OF assms(5)] obtain b where b: "sizeof_fmt (NInt t) ''B'' = Inr b" by blast
  have "downloaded_of d = PyInt n" using assms(1) by (rule downloaded_of_count)
  moreover have "total_of d = PyInt t" using assms(3,4) by (rule total_of_exact)
  ultimately have "size_str d = Inr (a @ '' / '' @ b)"
    using assms(4) a b by (simp add: size_str_def)
  with a b show ?thesis by blast
qed

lemma size_str_no_total:
  assumes "count_is (d ''downloaded_bytes'') n" "\<bar>n\<bar> < 2 ^ 1024 - 2 ^ 970"
    "falsy_opt (d ''total_bytes'')" "falsy_opt (d ''total_bytes_estimated'')"
  shows "\<exists>a. sizeof_fmt (NInt n) ''B'' = Inr a \<and> size_str d = Inr a"
proof -
  from sizeof_fmt_returns [OF assms(2)] obtain a where a: "sizeof_fmt (NInt n) ''B'' = Inr a" by blast
  have "downloaded_of d = PyInt n" using assms(1) by (rule downloaded_of_count)
  moreover have "\<not> truthy (total_of d)" using assms(3,4) by (simp add: total_of_truthy)
  ultimately have "size_str d = Inr a" using a by (simp add: size_str_def)
  with a show ?thesis by blast
qed








text \<open>
  Claim C4, as the code has it, on what the hook writes. On a \<^verbatim>\<open>downloading\<close> event whose exact
  total (\<^verbatim>\<open>total_bytes\<close>) is a non-zero int, the size field of the status line is the downloaded
  count, \<^verbatim>\<open>" / "\<close>, the total, both unit-scaled by \<^verbatim>\<open>sizeof_fmt\<close>. On a \<^verbatim>\<open>downloading\<close> event that
  reports no total at all (\<^verbatim>\<open>total_bytes\<close> absent or falsy, and no estimate under either spelling of
  the estimate key) the size field is the downloaded count alone. The downloaded count is the
  int under \<^verbatim>\<open>downloaded_bytes\<close>, or 0 when that is absent or falsy; counts are of magnitude below
  \<open>2 ^ 1024 - 2 ^ 970\<close>. With no total and 2048 bytes downloaded the field is \<^verbatim>\<open>2.0KiB\<close>. Events
  that carry only an estimate are left out of this statement.
\<close>

theorem size_field_total:
  "(downloading_with d p sp e \<and> count_is (d ''downloaded_bytes'') n \<and> \<bar>n\<bar> < 2 ^ 1024 - 2 ^ 970
      \<and> d ''total_bytes'' = Some (PyInt t) \<and> t \<noteq> 0 \<and> \<bar>t\<bar> < 2 ^ 1024 - 2 ^ 970
    \<longrightarrow> (\<exists>a b. sizeof_fmt (NInt n) ''B'' = Inr a \<and> sizeof_fmt (NInt t) ''B'' = Inr b
               \<and> progress_hook d out = Inr (out @ CR # spec_status_line p (a @ '' / '' @ b) sp e)))
   \<and> (downloading_with d p sp e \<and> count_is (d ''downloaded_bytes'') n \<and> \<bar>n\<bar> < 2 ^ 1024 - 2 ^ 970
      \<and> falsy_opt (d ''total_bytes'') \<and> falsy_opt (d ''total_bytes_estimated'')
      \<and> falsy_opt (d ''total_bytes_estimate'')
    \<longrightarrow> (\<exists>a. sizeof_fmt (NInt n) ''B'' = Inr a
             \<and> progress_hook d out = Inr (out @ CR # spec_status_line p a sp e)))
   \<and> progress_hook [''status'' \<mapsto> PyStr ''downloading'', ''downloaded_bytes'' \<mapsto> PyInt 2048,
                    ''_percent_str'' \<mapsto> PyStr ''12.5%'', ''_speed_str'' \<mapsto> PyStr ''1.2MiB/s'',
                    ''_eta_str'' \<mapsto> PyStr ''10s''] out
       = Inr (out @ CR # spec_status_line ''12.5%'' ''2.0KiB'' ''1.2MiB/s'' ''10s'')"
proof (intro conjI impI)
  assume h: "downloading_with d p sp e \<and> count_is (d ''downloaded_bytes'') n \<and> \<bar>n\<bar> < 2 ^ 1024 - 2 ^ 970
      \<and> d ''total_bytes'' = Some (PyInt t) \<and> t \<noteq> 0 \<and> \<bar>t\<bar> < 2 ^ 1024 - 2 ^ 970"
  then have c: "count_is (d ''downloaded_bytes'') n" and n: "\<bar>n\<bar> < 2 ^ 1024 - 2 ^ 970"
    and tb: "d ''total_bytes'' = Some (PyInt t)" and t: "t \<noteq> 0" "\<bar>t\<bar> < 2 ^ 1024 - 2 ^ 970"
    and dw: "downloading_with d p sp e" by simp_all
  from size_str_exact_total [of d n t, OF c n tb t] obtain a b
    where ab: "sizeof_fmt (NInt n) ''B'' = Inr a" "sizeof_fmt (NInt t) ''B'' = Inr b"
      "size_str d = Inr (a @ '' / '' @ b)" by blast
  from hook_line [OF dw ab(3), of out] ab(1,2)
  show "\<exists>a b. sizeof_fmt (NInt n) ''B'' = Inr a \<and> sizeof_fmt (NInt t) ''B'' = Inr b
               \<and> progress_hook d out = Inr (out @ CR # spec_status_line p (a @ '' / '' @ b) sp e)"
    by blast
next
  assume h: "downloading_with d p sp e \<and> count_is (d ''downloaded_bytes'') n \<and> \<bar>n\<bar> < 2 ^ 1024 - 2 ^ 970
      \<and> falsy_opt (d ''total_bytes'') \<and> falsy_opt (d ''total_bytes_estimated'')
      \<and> falsy_opt (d ''total_bytes_estimate'')"
  then have c: "count_is (d ''downloaded_bytes'') n" and n: "\<bar>n\<bar> < 2 ^ 1024 - 2 ^ 970"
    and f: "falsy_opt (d ''total_bytes'')" "falsy_opt (d ''total_bytes_estimated'')"
    and dw: "downloading_with d p sp e" by simp_all
  from size_str_no_total [of d n, OF c n f] obtain a
    where a: "sizeof_fmt (NInt n) ''B'' = Inr a" "size_str d = Inr a" by blast
  from hook_line [OF dw a(2), of out] a(1)
  show "\<exists>a. sizeof_fmt (NInt n) ''B'' = Inr a
             \<and> progress_hook d out = Inr (out @ CR # spec_status_line p a sp e)"
    by blast
next
  show "progress_hook [''status'' \<mapsto> PyStr ''downloading'', ''downloaded_bytes'' \<mapsto> PyInt 2048,
                    ''_percent_str'' \<mapsto> PyStr ''12.5%'', ''_speed_str'' \<mapsto> PyStr ''1.2MiB/s'',
                    ''_eta_str'' \<mapsto> PyStr ''10s''] out
       = Inr (out @ CR # spec_status_line ''12.5%'' ''2.0KiB'' ''1.2MiB/s'' ''10s'')"
    by (simp add: event_simps sizeof_fmt_2048 spec_status_line_def)
qed

theorem size_field_total_witness:
  "progress_hook [''status'' \<mapsto> PyStr ''downloading'', ''downloaded_bytes'' \<mapsto> PyInt 500,
                  ''total_bytes'' \<mapsto> PyInt 1000, ''_percent_str'' \<mapsto> PyStr ''50.0%'',
                  ''_speed_str'' \<mapsto> PyStr ''1.2MiB/s'', ''_eta_str'' \<mapsto> PyStr ''10s''] ''abc''
     = Inr (''abc'' @ CR # ''50.0%  500.0B / 1000.0B  1.2MiB/s  ETA 10s'')
   \<and> progress_hook [''status'' \<mapsto> PyStr ''downloading'', ''downloaded_bytes'' \<mapsto> PyInt 2048,
                  ''total_bytes'' \<mapsto> PyNone, ''_percent_str'' \<mapsto> PyStr ''12.5%'',
                  ''_eta_str'' \<mapsto> PyStr ''10s''] ''abc''
     = Inr (''abc'' @ CR # ''12.5%  2.0KiB  ? B/s  ETA 10s'')"
proof -
  let ?d1 = "[''status'' \<mapsto> PyStr ''downloading'', ''downloaded_bytes'' \<mapsto> PyInt 500,
                  ''total_bytes'' \<mapsto> PyInt 1000, ''_percent_str'' \<mapsto> PyStr ''50.0%'',
                  ''_speed_str'' \<mapsto> PyStr ''1.2MiB/s'', ''_eta_str'' \<mapsto> PyStr ''10s'']"
  let ?d2 = "[''status'' \<mapsto> PyStr ''downloading'', ''downloaded_bytes'' \<mapsto> PyInt 2048,
                  ''total_bytes'' \<mapsto> PyNone, ''_percent_str'' \<mapsto> PyStr ''12.5%'',
                  ''_eta_str'' \<mapsto> PyStr ''10s'']"
  have h1: "downloading_with ?d1 ''50.0%'' ''1.2MiB/s'' ''10s'' \<and> count_is (?d1 ''downloaded_bytes'') 500
      \<and> \<bar>500 :: int\<bar> < 2 ^ 1024 - 2 ^ 970
      \<and> ?d1 ''total_bytes'' = Some (PyInt 1000) \<and> (1000 :: int) \<noteq> 0 \<and> \<bar>1000 :: int\<bar> < 2 ^ 1024 - 2 ^ 970"
    by (simp add: downloading_with_def text_field_def count_is_def)
  from size_field_total [of ?d1 "''50.0%''" "''1.2MiB/s''" "''10s''" 500 1000 "''abc''"] h1
  have "\<exists>a b. sizeof_fmt (NInt 500) ''B'' = Inr a \<and> sizeof_fmt (NInt 1000) ''B'' = Inr b
      \<and> progress_hook ?d1 ''abc''
          = Inr (''abc'' @ CR # spec_status_line ''50.0%'' (a @ '' / '' @ b) ''1.2MiB/s'' ''10s'')"
    by blast
  then have v1: "progress_hook ?d1 ''abc'' = Inr (''abc'' @ CR # ''50.0%  500.0B / 1000.0B  1.2MiB/s  ETA 10s'')"
    by (auto simp add: sizeof_fmt_500 sizeof_fmt_1000 spec_status_line_def)
  have h2: "downloading_with ?d2 ''12.5%'' ''? B/s'' ''10s'' \<and> count_is (?d2 ''downloaded_bytes'') 2048
      \<and> \<bar>2048 :: int\<bar> < 2 ^ 1024 - 2 ^ 970
      \<and> falsy_opt (?d2 ''total_bytes'') \<and> falsy_opt (?d2 ''total_bytes_estimated'')
      \<and> falsy_opt (?d2 ''total_bytes_estimate'')"
    by (simp add: downloading_with_def text_field_def count_is_def falsy_opt_def)
  from size_field_total [of ?d2 "''12.5%''" "''? B/s''" "''10s''" 2048 _ "''abc''"] h2
  have "\<exists>a. sizeof_fmt (NInt 2048) ''B'' = Inr a
      \<and> progress_hook ?d2 ''abc'' = Inr (''abc'' @ CR # spec_status_line ''12.5%'' a ''? B/s'' ''10s'')"
    by blast
  then have v2: "progress_hook ?d2 ''abc'' = Inr (''abc'' @ CR # ''12.5%  2.0KiB  ? B/s  ETA 10s'')"
    by (auto simp add: sizeof_fmt_2048 spec_status_line_def)
  from v1 v2 show ?thesis by (intro conjI)
qed

text \<open>
  Not whenever the total is known: a total that is known to be 0 (an empty file) is passed
  over like a missing one, and the hook writes the downloaded count alone, not
  \<^verbatim>\<open>0.0B / 0.0B\<close>.
\<close>

theorem size_field_zero_total:
  "progress_hook [''status'' \<mapsto> PyStr ''downloading'', ''downloaded_bytes'' \<mapsto> PyInt 0,
                  ''total_bytes'' \<mapsto> PyInt 0, ''_percent_str'' \<mapsto> PyStr ''0.0%'',
                  ''_speed_str'' \<mapsto> PyStr ''0.0B/s'', ''_eta_str'' \<mapsto> PyStr ''0s''] []
     = Inr (CR # ''0.0%  0.0B  0.0B/s  ETA 0s'')
   \<and> sizeof_fmt (NInt 0) ''B'' = Inr ''0.0B''
   \<and> progress_hook [''status'' \<mapsto> PyStr ''downloading'', ''downloaded_bytes'' \<mapsto> PyInt 0,
                  ''total_bytes'' \<mapsto> PyInt 0, ''_percent_str'' \<mapsto> PyStr ''0.0%'',
                  ''_speed_str'' \<mapsto> PyStr ''0.0B/s'', ''_eta_str'' \<mapsto> PyStr ''0s''] []
     \<noteq> Inr (CR # ''0.0%  0.0B / 0.0B  0.0B/s  ETA 0s'')"
  by (simp add: event_simps sizeof_fmt_0)

text \<open>
  The hook reads the estimate under \<^verbatim>\<open>total_bytes_estimated\<close>. An event that carries its estimate
  under \<^verbatim>\<open>total_bytes_estimate\<close>, the key yt-dlp documents for its progress hooks, is written
  with the downloaded count alone: the estimate is never read.
\<close>

lemma estimate_key_not_read:
  "progress_hook [''status'' \<mapsto> PyStr ''downloading'', ''downloaded_bytes'' \<mapsto> PyInt 500,
                  ''total_bytes'' \<mapsto> PyNone, ''total_bytes_estimate'' \<mapsto> PyInt 1000,
                  ''_percent_str'' \<mapsto> PyStr ''50.0%'', ''_speed_str'' \<mapsto> PyStr ''1.2MiB/s'',
                  ''_eta_str'' \<mapsto> PyStr ''10s''] []
     = Inr (CR # ''50.0%  500.0B  1.2MiB/s  ETA 10s'')"
  by (simp add: event_simps sizeof_fmt_500)

subsection \<open>Counts that are zero or absent\<close>

lemma dict_get_upd_same: "dict_get (d(k \<mapsto> v)) k = v"
  by (simp add: dict_get_def)

lemma dict_get_del_same: "dict_get (d(k := None)) k = PyNone"
  by (simp add: dict_get_def)

lemma dict_get_upd_other: "k' \<noteq> k \<Longrightarrow> dict_get (d(k := v)) k' = dict_get d k'"
  by (simp add: dict_get_def)

text \<open>The size field depends on the total only through its truth value when that is false.\<close>

lemma size_str_cong:
  assumes "downloaded_of d = downloaded_of d'"
    and "total_of d = total_of d' \<or> \<not> truthy (total_of d) \<and> \<not> truthy (total_of d')"
  shows "size_str d = size_str d'"
  using assms by (auto simp add: size_str_def)

lemma size_str_zero_total_bytes:
  "size_str (d(''total_bytes'' \<mapsto> PyInt 0)) = size_str (d(''total_bytes'' := None))"
proof (rule size_str_cong)
  show "downloaded_of (d(''total_bytes'' \<mapsto> PyInt 0)) = downloaded_of (d(''total_bytes'' := None))"
    by (simp add: downloaded_of_def dict_get_upd_other)
  have "total_of (d(''total_bytes'' \<mapsto> PyInt 0)) = total_of (d(''total_bytes'' := None))"
    unfolding total_of_def dict_get_upd_same dict_get_del_same
    by (simp add: py_or_def dict_get_upd_other)
  then show "total_of (d(''total_bytes'' \<mapsto> PyInt 0)) = total_of (d(''total_bytes'' := None))
      \<or> \<not> truthy (total_of (d(''total_bytes'' \<mapsto> PyInt 0)))
        \<and> \<not> truthy (total_of (d(''total_bytes'' := None)))"
    by (rule disjI1)
qed

lemma size_str_zero_estimate:
  "size_str (d(''total_bytes_estimated'' \<mapsto> PyInt 0)) = size_str (d(''total_bytes_estimated'' := None))"
proof (rule size_str_cong)
  show "downloaded_of (d(''total_bytes_estimated'' \<mapsto> PyInt 0))
          = downloaded_of (d(''total_bytes_estimated'' := None))"
    by (simp add: downloaded_of_def dict_get_upd_other)
  have a: "total_of (d(''total_bytes_estimated'' \<mapsto> PyInt 0))
             = py_or (dict_get d ''total_bytes'') (PyInt 0)"
    unfolding total_of_def dict_get_upd_same by (simp add: dict_get_upd_other)
  have b: "total_of (d(''total_bytes_estimated'' := None))
             = py_or (dict_get d ''total_bytes'') PyNone"
    unfolding total_of_def dict_get_del_same by (simp add: dict_get_upd_other)
  show "total_of (d(''total_bytes_estimated'' \<mapsto> PyInt 0)) = total_of (d(''total_bytes_estimated'' := None))
      \<or> \<not> truthy (total_of (d(''total_bytes_estimated'' \<mapsto> PyInt 0)))
        \<and> \<not> truthy (total_of (d(''total_bytes_estimated'' := None)))"
    unfolding a b by (simp add: py_or_def)
qed

lemma hook_depends_on:
  assumes "d ''status'' = d' ''status''" "d ''_percent_str'' = d' ''_percent_str''"
    "d ''_speed_str'' = d' ''_speed_str''" "d ''_eta_str'' = d' ''_eta_str''"
    "size_str d = size_str d'"
  shows "progress_hook d out = progress_hook d' out"
proof -
  have p: "dict_get_default d ''_percent_str'' v = dict_get_default d' ''_percent_str'' v"
    "dict_get_default d ''_speed_str'' v = dict_get_default d' ''_speed_str'' v"
    "dict_get_default d ''_eta_str'' v = dict_get_default d' ''_eta_str'' v" for v
    using assms(2,3,4) by (simp_all add: dict_get_default_def)
  show ?thesis unfolding progress_hook_def assms(5) p assms(1) by (rule refl)
qed

lemma count_is_falsy: "falsy_opt v \<Longrightarrow> count_is v 0"
  by (simp add: count_is_def)

text \<open>
  Claim C10, on what the hook writes. Setting \<^verbatim>\<open>total_bytes\<close> to 0 gives the hook's result for the
  same event without that key, and likewise for the second key the hook reads. On a \<^verbatim>\<open>downloading\<close>
  event whose \<^verbatim>\<open>total_bytes\<close> is 0 and which has no estimate, the size field of the line written
  is the downloaded count alone. A \<^verbatim>\<open>downloaded_bytes\<close> that is absent, \<^verbatim>\<open>None\<close> or 0 is written as
  \<^verbatim>\<open>0.0B\<close>, alone when there is no total and before \<^verbatim>\<open>" / "\<close> and the total when there is one, and
  the hook returns.
\<close>

theorem zero_counts_like_absent:
  "progress_hook (d(''total_bytes'' \<mapsto> PyInt 0)) out = progress_hook (d(''total_bytes'' := None)) out
   \<and> progress_hook (d(''total_bytes_estimated'' \<mapsto> PyInt 0)) out
       = progress_hook (d(''total_bytes_estimated'' := None)) out
   \<and> (downloading_with d p sp e \<and> d ''total_bytes'' = Some (PyInt 0)
        \<and> falsy_opt (d ''total_bytes_estimated'') \<and> falsy_opt (d ''total_bytes_estimate'')
        \<and> count_is (d ''downloaded_bytes'') n \<and> \<bar>n\<bar> < 2 ^ 1024 - 2 ^ 970
      \<longrightarrow> (\<exists>a. sizeof_fmt (NInt n) ''B'' = Inr a
               \<and> progress_hook d out = Inr (out @ CR # spec_status_line p a sp e)))
   \<and> (downloading_with d p sp e \<and> falsy_opt (d ''downloaded_bytes'')
        \<and> falsy_opt (d ''total_bytes'') \<and> falsy_opt (d ''total_bytes_estimated'')
        \<and> falsy_opt (d ''total_bytes_estimate'')
      \<longrightarrow> progress_hook d out = Inr (out @ CR # spec_status_line p ''0.0B'' sp e))
   \<and> (downloading_with d p sp e \<and> falsy_opt (d ''downloaded_bytes'')
        \<and> d ''total_bytes'' = Some (PyInt t) \<and> t \<noteq> 0 \<and> \<bar>t\<bar> < 2 ^ 1024 - 2 ^ 970
      \<longrightarrow> (\<exists>b. sizeof_fmt (NInt t) ''B'' = Inr b
               \<and> progress_hook d out = Inr (out @ CR # spec_status_line p (''0.0B / '' @ b) sp e)))"
proof (intro conjI impI)
  show "progress_hook (d(''total_bytes'' \<mapsto> PyInt 0)) out = progress_hook (d(''total_bytes'' := None)) out"
    by (rule hook_depends_on) (simp_all add: size_str_zero_total_bytes)
next
  show "progress_hook (d(''total_bytes_estimated'' \<mapsto> PyInt 0)) out
       = progress_hook (d(''total_bytes_estimated'' := None)) out"
    by (rule hook_depends_on) (simp_all add: size_str_zero_estimate)
next
  assume h: "downloading_with d p sp e \<and> d ''total_bytes'' = Some (PyInt 0)
        \<and> falsy_opt (d ''total_bytes_estimated'') \<and> falsy_opt (d ''total_bytes_estimate'')
        \<and> count_is (d ''downloaded_bytes'') n \<and> \<bar>n\<bar> < 2 ^ 1024 - 2 ^ 970"
  then have dw: "downloading_with d p sp e" and c: "count_is (d ''downloaded_bytes'') n"
    and n: "\<bar>n\<bar> < 2 ^ 1024 - 2 ^ 970" and f2: "falsy_opt (d ''total_bytes_estimated'')"
    and f1: "falsy_opt (d ''total_bytes'')" by (simp_all add: falsy_opt_def)
  from size_str_no_total [of d n, OF c n f1 f2] obtain a
    where a: "sizeof_fmt (NInt n) ''B'' = Inr a" "size_str d = Inr a" by blast
  from hook_line [OF dw a(2), of out] a(1)
  show "\<exists>a. sizeof_fmt (NInt n) ''B'' = Inr a
               \<and> progress_hook d out = Inr (out @ CR # spec_status_line p a sp e)" by blast
next
  assume h: "downloading_with d p sp e \<and> falsy_opt (d ''downloaded_bytes'')
        \<and> falsy_opt (d ''total_bytes'') \<and> falsy_opt (d ''total_bytes_estimated'')
        \<and> falsy_opt (d ''total_bytes_estimate'')"
  then have dw: "downloading_with d p sp e" and c: "count_is (d ''downloaded_bytes'') 0"
    and f: "falsy_opt (d ''total_bytes'')" "falsy_opt (d ''total_bytes_estimated'')"
    by (simp_all add: count_is_falsy)
  have z: "\<bar>0 :: int\<bar> < 2 ^ 1024 - 2 ^ 970" by simp
  from size_str_no_total [of d 0, OF c z f] have "size_str d = Inr ''0.0B''"
    by (simp add: sizeof_fmt_0)
  from hook_line [OF dw this, of out]
  show "progress_hook d out = Inr (out @ CR # spec_status_line p ''0.0B'' sp e)" .
next
  assume h: "downloading_with d p sp e \<and> falsy_opt (d ''downloaded_bytes'')
        \<and> d ''total_bytes'' = Some (PyInt t) \<and> t \<noteq> 0 \<and> \<bar>t\<bar> < 2 ^ 1024 - 2 ^ 970"
  then have dw: "downloading_with d p sp e" and c: "count_is (d ''downloaded_bytes'') 0"
    and tb: "d ''total_bytes'' = Some (PyInt t)" and t: "t \<noteq> 0" "\<bar>t\<bar> < 2 ^ 1024 - 2 ^ 970"
    by (simp_all add: count_is_falsy)
  have z: "\<bar>0 :: int\<bar> < 2 ^ 1024 - 2 ^ 970" by simp
  from size_str_exact_total [of d 0 t, OF c z tb t] obtain b
    where b: "sizeof_fmt (NInt t) ''B'' = Inr b" "size_str d = Inr (''0.0B / '' @ b)"
    by (auto simp add: sizeof_fmt_0)
  from hook_line [OF dw b(2), of out] b(1)
  show "\<exists>b. sizeof_fmt (NInt t) ''B'' = Inr b
               \<and> progress_hook d out = Inr (out @ CR # spec_status_line p (''0.0B / '' @ b) sp e)"
    by blast
qed

theorem zero_counts_like_absent_witness:
  "progress_hook [''status'' \<mapsto> PyStr ''downloading'', ''downloaded_bytes'' \<mapsto> PyInt 2048,
                  ''total_bytes'' \<mapsto> PyInt 0, ''_percent_str'' \<mapsto> PyStr ''12.5%''] ''abc''
     = Inr (''abc'' @ CR # ''12.5%  2.0KiB  ? B/s  ETA ?s'')
   \<and> progress_hook [''status'' \<mapsto> PyStr ''downloading'', ''total_bytes'' \<mapsto> PyInt 0] ''abc''
     = Inr (''abc'' @ CR # ''?%  0.0B  ? B/s  ETA ?s'')
   \<and> progress_hook [''status'' \<mapsto> PyStr ''downloading'', ''downloaded_bytes'' \<mapsto> PyInt 0,
                  ''total_bytes'' \<mapsto> PyInt 1000, ''_eta_str'' \<mapsto> PyStr ''10s''] ''abc''
     = Inr (''abc'' @ CR # ''?%  0.0B / 1000.0B  ? B/s  ETA 10s'')
   \<and> progress_hook [''status'' \<mapsto> PyStr ''downloading'', ''downloaded_bytes'' \<mapsto> PyInt 2048,
                    ''total_bytes'' \<mapsto> PyInt 0] []
       = progress_hook [''status'' \<mapsto> PyStr ''downloading'', ''downloaded_bytes'' \<mapsto> PyInt 2048] []"
proof -
  let ?d1 = "[''status'' \<mapsto> PyStr ''downloading'', ''downloaded_bytes'' \<mapsto> PyInt 2048,
                  ''total_bytes'' \<mapsto> PyInt 0, ''_percent_str'' \<mapsto> PyStr ''12.5%'']"
  let ?d2 = "[''status'' \<mapsto> PyStr ''downloading'', ''total_bytes'' \<mapsto> PyInt 0]"
  let ?d3 = "[''status'' \<mapsto> PyStr ''downloading'', ''downloaded_bytes'' \<mapsto> PyInt 0,
                  ''total_bytes'' \<mapsto> PyInt 1000, ''_eta_str'' \<mapsto> PyStr ''10s'']"
  let ?d0 = "[''status'' \<mapsto> PyStr ''downloading'', ''downloaded_bytes'' \<mapsto> PyInt 2048]"
  have h1: "downloading_with ?d1 ''12.5%'' ''? B/s'' ''?s'' \<and> ?d1 ''total_bytes'' = Some (PyInt 0)
        \<and> falsy_opt (?d1 ''total_bytes_estimated'') \<and> falsy_opt (?d1 ''total_bytes_estimate'')
        \<and> count_is (?d1 ''downloaded_bytes'') 2048 \<and> \<bar>2048 :: int\<bar> < 2 ^ 1024 - 2 ^ 970"
    by (simp add: downloading_with_def text_field_def count_is_def falsy_opt_def)
  from zero_counts_like_absent [of ?d1 "''abc''" "''12.5%''" "''? B/s''" "''?s''" 2048] h1
  have "\<exists>a. sizeof_fmt (NInt 2048) ''B'' = Inr a
      \<and> progress_hook ?d1 ''abc'' = Inr (''abc'' @ CR # spec_status_line ''12.5%'' a ''? B/s'' ''?s'')"
    by blast
  then have v1: "progress_hook ?d1 ''abc'' = Inr (''abc'' @ CR # ''12.5%  2.0KiB  ? B/s  ETA ?s'')"
    by (auto simp add: sizeof_fmt_2048 spec_status_line_def)
  have h2: "downloading_with ?d2 ''?%'' ''? B/s'' ''?s'' \<and> falsy_opt (?d2 ''downloaded_bytes'')
        \<and> falsy_opt (?d2 ''total_bytes'') \<and> falsy_opt (?d2 ''total_bytes_estimated'')
        \<and> falsy_opt (?d2 ''total_bytes_estimate'')"
    by (simp add: downloading_with_def text_field_def falsy_opt_def)
  from zero_counts_like_absent [of ?d2 "''abc''" "''?%''" "''? B/s''" "''?s''"] h2
  have "progress_hook ?d2 ''abc'' = Inr (''abc'' @ CR # spec_status_line ''?%'' ''0.0B'' ''? B/s'' ''?s'')"
    by blast
  then have v2: "progress_hook ?d2 ''abc'' = Inr (''abc'' @ CR # ''?%  0.0B  ? B/s  ETA ?s'')"
    by (simp add: spec_status_line_def)
  have h3: "downloading_with ?d3 ''?%'' ''? B/s'' ''10s'' \<and> falsy_opt (?d3 ''downloaded_bytes'')
        \<and> ?d3 ''total_bytes'' = Some (PyInt 1000) \<and> (1000 :: int) \<noteq> 0
        \<and> \<bar>1000 :: int\<bar> < 2 ^ 1024 - 2 ^ 970"
    by (simp add: downloading_with_def text_field_def falsy_opt_def)
  from zero_counts_like_absent [of ?d3 "''abc''" "''?%''" "''? B/s''" "''10s''" _ 1000] h3
  have "\<exists>b. sizeof_fmt (NInt 1000) ''B'' = Inr b
      \<and> progress_hook ?d3 ''abc''
          = Inr (''abc'' @ CR # spec_status_line ''?%'' (''0.0B / '' @ b) ''? B/s'' ''10s'')"
    by blast
  then have v3: "progress_hook ?d3 ''abc'' = Inr (''abc'' @ CR # ''?%  0.0B / 1000.0B  ? B/s  ETA 10s'')"
    by (auto simp add: sizeof_fmt_1000 spec_status_line_def)
  have "?d0(''total_bytes'' := None) = ?d0" by (rule ext) simp
  with zero_counts_like_absent [of ?d0 "[]"]
  have v4: "progress_hook (?d0(''total_bytes'' \<mapsto> PyInt 0)) [] = progress_hook ?d0 []" by simp
  from v1 v2 v3 v4 show ?thesis by (intro conjI)
qed

subsection \<open>Failures of the run\<close>

text \<open>What the code of \<^verbatim>\<open>main\<close> itself raises inside the \<^verbatim>\<open>try\<close> is one of the two \<^verbatim>\<open>ValueError\<close>s.\<close>

lemma fmt_str_raises: "fmt_str v = Inl e \<Longrightarrow> e = digits_limit_error"
  by (simp add: fmt_str_def split: sum.splits)

lemma fmt_02d_raises: "fmt_02d n = Inl e \<Longrightarrow> e = digits_limit_error"
  by (simp add: fmt_02d_def split: if_splits)

lemma bind_result_raises:
  "bind_result m f = Inl e \<Longrightarrow> m = Inl e \<or> (\<exists>x. m = Inr x \<and> f x = Inl e)"
  by (cases m) simp_all

lemma dur_str_raises:
  assumes "dur_str dur = Inl e"
  shows "e = digits_limit_error"
proof -
  from assms have "bind_result
      (if dur div 60 div 60 \<noteq> 0
       then bind_result (fmt_02d (dur div 60 div 60)) (\<lambda>h. Inr (h @ '':'')) else Inr [])
      (\<lambda>s1. bind_result (fmt_02d (dur div 60 mod 60)) (\<lambda>m. bind_result (fmt_02d (dur mod 60)) (\<lambda>s.
              Inr (s1 @ m @ '':'' @ s)))) = Inl e"
    by (simp add: dur_str_def Let_def)
  then show ?thesis
  proof (cases "dur div 60 div 60 \<noteq> 0")
    case True
    with \<open>bind_result _ _ = Inl e\<close>
    have "bind_result (bind_result (fmt_02d (dur div 60 div 60)) (\<lambda>h. Inr (h @ '':'')))
      (\<lambda>s1. bind_result (fmt_02d (dur div 60 mod 60)) (\<lambda>m. bind_result (fmt_02d (dur mod 60)) (\<lambda>s.
              Inr (s1 @ m @ '':'' @ s)))) = Inl e" by simp
    then show ?thesis
      by (cases "fmt_02d (dur div 60 div 60)"; cases "fmt_02d (dur div 60 mod 60)";
          cases "fmt_02d (dur mod 60)") (simp_all add: fmt_02d_raises)
  next
    case False
    with \<open>bind_result _ _ = Inl e\<close>
    have "bind_result (fmt_02d (dur div 60 mod 60)) (\<lambda>m. bind_result (fmt_02d (dur mod 60)) (\<lambda>s.
              Inr (m @ '':'' @ s))) = Inl e" by simp
    then show ?thesis
      by (cases "fmt_02d (dur div 60 mod 60)"; cases "fmt_02d (dur mod 60)")
         (simp_all add: fmt_02d_raises)
  qed
qed

lemma summary_raises:
  assumes "summary i = (txt, Some e)"
  shows "e = digits_limit_error \<or> e = float_format_d_error"
proof (cases "entries i")
  case (Some es)
  with assms show ?thesis
    by (cases "fmt_str (case title i of None \<Rightarrow> PyStr ''Unknown'' | Some t \<Rightarrow> t)")
       (simp_all add: summary_def fmt_str_raises)
next
  case None
  show ?thesis
  proof (cases "fmt_str (case title i of None \<Rightarrow> PyStr ''Unknown title'' | Some t \<Rightarrow> t)")
    case (Inl e')
    with None assms show ?thesis by (simp add: summary_def fmt_str_raises)
  next
    case (Inr t)
    show ?thesis
    proof (cases "duration i")
      case dn: None
      with None Inr assms show ?thesis by (simp add: summary_def Let_def)
    next
      case (Some v)
      show ?thesis
      proof (cases v)
        case (NFloat x)
        with None Inr Some assms show ?thesis
          by (simp add: summary_def Let_def split: if_splits)
      next
        case (NInt dur)
        with None Inr Some assms show ?thesis
          by (cases "dur_str dur") (simp_all add: summary_def Let_def dur_str_raises split: if_splits)
      qed
    qed
  qed
qed

lemma summary_value_error:
  assumes "summary i = (txt, Some e)"
  shows "\<exists>msg. e = OtherException ''ValueError'' msg"
  using summary_raises [OF assms]
  by (auto simp add: digits_limit_error_def float_format_d_error_def)

lemma summary_float_duration:
  assumes "entries i = None" "title i = Some (PyStr t)" "duration i = Some (NFloat x)" "x \<noteq> 0"
  shows "summary i = (LF # ''Title: '' @ t @ [LF], Some float_format_d_error)"
  using assms by (simp add: summary_def fmt_str_def)

text \<open>The output and outcome of \<^verbatim>\<open>main\<close> in terms of what the engine does.\<close>

lemma main_create_raises:
  assumes "parse_args c = Inr a" "create eng (build_opts a) = Some e"
  shows "main eng c out =
     (case e of
        DownloadError msg \<Rightarrow> (out @ LF # ''Download failed: '' @ msg @ [LF], Exit 1)
      | OtherException kind msg \<Rightarrow>
          (out @ LF # ''Unexpected error: '' @ kind @ '': '' @ msg @ [LF], Exit 1)
      | NonException kind \<Rightarrow> (out, Propagated kind))"
  using assms by (simp add: main_def try_body_def split: raised.splits)

lemma main_extract_info_raises:
  assumes "parse_args c = Inr a" "create eng (build_opts a) = None"
    "extract_info eng (build_opts a) (url a) (\<not> list_formats a) = (w, Inl e)"
  shows "main eng c out =
     (let out' = out @ LF # ''Fetching info... '' @ url a @ [LF] @ w
      in case e of
        DownloadError msg \<Rightarrow> (out' @ LF # ''Download failed: '' @ msg @ [LF], Exit 1)
      | OtherException kind msg \<Rightarrow>
          (out' @ LF # ''Unexpected error: '' @ kind @ '': '' @ msg @ [LF], Exit 1)
      | NonException kind \<Rightarrow> (out', Propagated kind))"
  using assms by (simp add: main_def try_body_def split: raised.splits)

lemma main_summary_raises:
  assumes "parse_args c = Inr a" "create eng (build_opts a) = None"
    "extract_info eng (build_opts a) (url a) (\<not> list_formats a) = (w, Inr i)"
    "\<not> list_formats a" "summary i = (txt, Some (OtherException kind msg))"
  shows "main eng c out =
     (out @ LF # ''Fetching info... '' @ url a @ [LF] @ w @ txt
        @ LF # ''Unexpected error: '' @ kind @ '': '' @ msg @ [LF], Exit 1)"
  using assms by (simp add: main_def try_body_def)

text \<open>
  Claim C9. Let the arguments parse. When the engine signals \<^verbatim>\<open>DownloadError\<close>, on being created or
  from \<^verbatim>\<open>extract_info\<close>, \<^verbatim>\<open>main\<close> prints, after what was printed so far, a blank line and
  \<^verbatim>\<open>Download failed:\<close> with the error's text, and exits with status 1. When the engine signals
  any other subclass of \<^verbatim>\<open>Exception\<close>, \<^verbatim>\<open>main\<close> prints \<^verbatim>\<open>Unexpected error:\<close> with the class name and
  the error's text, and exits with status 1. The same handler takes the failures of \<^verbatim>\<open>main\<close>'s
  own code on the metadata: a float duration other than zero ends, after the title line, in
  \<^verbatim>\<open>Unexpected error: ValueError: Unknown format code 'd' for object of type 'float'\<close> and status
  1, and whatever the summary raises is a \<^verbatim>\<open>ValueError\<close> reported in that way.
\<close>

theorem failures_exit_1:
  assumes "parse_args c = Inr a"
  shows
  "(create eng (build_opts a) = Some (DownloadError msg)
      \<longrightarrow> main eng c out = (out @ LF # ''Download failed: '' @ msg @ [LF], Exit 1))
   \<and> (create eng (build_opts a) = None
        \<and> extract_info eng (build_opts a) (url a) (\<not> list_formats a) = (w, Inl (DownloadError msg))
      \<longrightarrow> main eng c out
            = (out @ LF # ''Fetching info... '' @ url a @ [LF] @ w
                 @ LF # ''Download failed: '' @ msg @ [LF], Exit 1))
   \<and> (create eng (build_opts a) = Some (OtherException kind msg)
      \<longrightarrow> main eng c out = (out @ LF # ''Unexpected error: '' @ kind @ '': '' @ msg @ [LF], Exit 1))
   \<and> (create eng (build_opts a) = None
        \<and> extract_info eng (build_opts a) (url a) (\<not> list_formats a)
            = (w, Inl (OtherException kind msg))
      \<longrightarrow> main eng c out
            = (out @ LF # ''Fetching info... '' @ url a @ [LF] @ w
                 @ LF # ''Unexpected error: '' @ kind @ '': '' @ msg @ [LF], Exit 1))
   \<and> (create eng (build_opts a) = None
        \<and> extract_info eng (build_opts a) (url a) (\<not> list_formats a) = (w, Inr i)
        \<and> \<not> list_formats a
        \<and> entries i = None \<and> title i = Some (PyStr t) \<and> duration i = Some (NFloat x) \<and> x \<noteq> 0
      \<longrightarrow> main eng c out
            = (out @ LF # ''Fetching info... '' @ url a @ [LF] @ w @ LF # ''Title: '' @ t @ [LF]
                 @ LF # ''Unexpected error: ValueError: Unknown format code '' @ [CHR 0x27] @ ''d''
                 @ [CHR 0x27] @ '' for object of type '' @ [CHR 0x27] @ ''float'' @ [CHR 0x27]
                 @ [LF], Exit 1))
   \<and> (create eng (build_opts a) = None
        \<and> extract_info eng (build_opts a) (url a) (\<not> list_formats a) = (w, Inr i)
        \<and> \<not> list_formats a \<and> summary i = (txt, Some e)
      \<longrightarrow> (\<exists>m. e = OtherException ''ValueError'' m
             \<and> main eng c out
                 = (out @ LF # ''Fetching info... '' @ url a @ [LF] @ w @ txt
                      @ LF # ''Unexpected error: ValueError: '' @ m @ [LF], Exit 1)))"
proof (intro conjI impI)
  assume "create eng (build_opts a) = Some (DownloadError msg)"
  from main_create_raises [OF assms this, of out]
  show "main eng c out = (out @ LF # ''Download failed: '' @ msg @ [LF], Exit 1)" by simp
next
  assume "create eng (build_opts a) = None
        \<and> extract_info eng (build_opts a) (url a) (\<not> list_formats a) = (w, Inl (DownloadError msg))"
  then have "create eng (build_opts a) = None"
    "extract_info eng (build_opts a) (url a) (\<not> list_formats a) = (w, Inl (DownloadError msg))"
    by simp_all
  from main_extract_info_raises [OF assms this, of out]
  show "main eng c out
            = (out @ LF # ''Fetching info... '' @ url a @ [LF] @ w
                 @ LF # ''Download failed: '' @ msg @ [LF], Exit 1)" by simp
next
  assume "create eng (build_opts a) = Some (OtherException kind msg)"
  from main_create_raises [OF assms this, of out]
  show "main eng c out = (out @ LF # ''Unexpected error: '' @ kind @ '': '' @ msg @ [LF], Exit 1)"
    by simp
next
  assume "create eng (build_opts a) = None
        \<and> extract_info eng (build_opts a) (url a) (\<not> list_formats a)
            = (w, Inl (OtherException kind msg))"
  then have "create eng (build_opts a) = None"
    "extract_info eng (build_opts a) (url a) (\<not> list_formats a) = (w, Inl (OtherException kind msg))"
    by simp_all
  from main_extract_info_raises [OF assms this, of out]
  show "main eng c out
            = (out @ LF # ''Fetching info... '' @ url a @ [LF] @ w
                 @ LF # ''Unexpected error: '' @ kind @ '': '' @ msg @ [LF], Exit 1)" by simp
next
  assume h: "create eng (build_opts a) = None
        \<and> extract_info eng (build_opts a) (url a) (\<not> list_formats a) = (w, Inr i)
        \<and> \<not> list_formats a
        \<and> entries i = None \<and> title i = Some (PyStr t) \<and> duration i = Some (NFloat x) \<and> x \<noteq> 0"
  then have cr: "create eng (build_opts a) = None"
    and ex: "extract_info eng (build_opts a) (url a) (\<not> list_formats a) = (w, Inr i)"
    and nl: "\<not> list_formats a"
    and i: "entries i = None" "title i = Some (PyStr t)" "duration i = Some (NFloat x)" "x \<noteq> 0"
    by blast+
  have "summary i = (LF # ''Title: '' @ t @ [LF],
      Some (OtherException ''ValueError''
       (''Unknown format code '' @ [CHR 0x27] @ ''d'' @ [CHR 0x27] @ '' for object of type ''
        @ [CHR 0x27] @ ''float'' @ [CHR 0x27])))"
    using summary_float_duration [OF i] by (simp add: float_format_d_error_def)
  from main_summary_raises [OF assms cr ex nl this, of out]
  show "main eng c out
            = (out @ LF # ''Fetching info... '' @ url a @ [LF] @ w @ LF # ''Title: '' @ t @ [LF]
                 @ LF # ''Unexpected error: ValueError: Unknown format code '' @ [CHR 0x27] @ ''d''
                 @ [CHR 0x27] @ '' for object of type '' @ [CHR 0x27] @ ''float'' @ [CHR 0x27]
                 @ [LF], Exit 1)" by simp
next
  assume h: "create eng (build_opts a) = None
        \<and> extract_info eng (build_opts a) (url a) (\<not> list_formats a) = (w, Inr i)
        \<and> \<not> list_formats a \<and> summary i = (txt, Some e)"
  then have cr: "create eng (build_opts a) = None"
    and ex: "extract_info eng (build_opts a) (url a) (\<not> list_formats a) = (w, Inr i)"
    and nl: "\<not> list_formats a" and s: "summary i = (txt, Some e)"
    by blast+
  from summary_value_error [OF s] obtain m where m: "e = OtherException ''ValueError'' m" by blast
  from main_summary_raises [OF assms cr ex nl s [unfolded m], of out] m
  show "\<exists>m. e = OtherException ''ValueError'' m
             \<and> main eng c out
                 = (out @ LF # ''Fetching info... '' @ url a @ [LF] @ w @ txt
                      @ LF # ''Unexpected error: ValueError: '' @ m @ [LF], Exit 1)"
    by simp
qed

theorem failures_exit_1_witness:
  "main \<lparr>create = (\<lambda>opts. None),
         extract_info = (\<lambda>opts u dl. (''[youtube] x'' @ [LF], Inl (DownloadError ''HTTP Error 404'')))\<rparr>
        \<lparr>cli_url = ''https://youtu.be/x'', cli_format = None, cli_output = None,
         cli_list_formats = False, cli_no_playlist = False\<rparr> []
     = (LF # ''Fetching info... https://youtu.be/x'' @ [LF] @ ''[youtube] x'' @ [LF]
          @ LF # ''Download failed: HTTP Error 404'' @ [LF], Exit 1)
   \<and> main \<lparr>create = (\<lambda>opts. Some (OtherException ''ValueError'' ''bad option'')),
         extract_info = (\<lambda>opts u dl. ([], Inr (Info None None None)))\<rparr>
        \<lparr>cli_url = ''https://youtu.be/x'', cli_format = Some ''720'', cli_output = None,
         cli_list_formats = False, cli_no_playlist = False\<rparr> ''abc''
     = (''abc'' @ LF # ''Unexpected error: ValueError: bad option'' @ [LF], Exit 1)
   \<and> main \<lparr>create = (\<lambda>opts. None),
         extract_info = (\<lambda>opts u dl. ([], Inr (Info (Some (PyStr ''clip'')) (Some (NFloat (3 / 2))) None)))\<rparr>
        \<lparr>cli_url = ''https://youtu.be/x'', cli_format = None, cli_output = None,
         cli_list_formats = False, cli_no_playlist = False\<rparr> []
     = (LF # ''Fetching info... https://youtu.be/x'' @ [LF] @ LF # ''Title: clip'' @ [LF]
          @ LF # ''Unexpected error: ValueError: Unknown format code '' @ [CHR 0x27] @ ''d''
          @ [CHR 0x27] @ '' for object of type '' @ [CHR 0x27] @ ''float'' @ [CHR 0x27] @ [LF],
        Exit 1)"
proof -
  let ?c1 = "\<lparr>cli_url = ''https://youtu.be/x'', cli_format = None, cli_output = None,
         cli_list_formats = False, cli_no_playlist = False\<rparr>"
  let ?a1 = "\<lparr>url = ''https://youtu.be/x'', format = ''best'', output_arg = ''%(title)s [%(id)s].%(ext)s'',
         list_formats = False, no_playlist = False\<rparr>"
  let ?e1 = "\<lparr>create = (\<lambda>opts. None),
         extract_info = (\<lambda>opts u dl. (''[youtube] x'' @ [LF], Inl (DownloadError ''HTTP Error 404'')))\<rparr>"
  let ?c2 = "\<lparr>cli_url = ''https://youtu.be/x'', cli_format = Some ''720'', cli_output = None,
         cli_list_formats = False, cli_no_playlist = False\<rparr>"
  let ?a2 = "\<lparr>url = ''https://youtu.be/x'', format = ''720'', output_arg = ''%(title)s [%(id)s].%(ext)s'',
         list_formats = False, no_playlist = False\<rparr>"
  let ?e2 = "\<lparr>create = (\<lambda>opts. Some (OtherException ''ValueError'' ''bad option'')),
         extract_info = (\<lambda>opts u dl. ([], Inr (Info None None None)))\<rparr>"
  let ?i3 = "Info (Some (PyStr ''clip'')) (Some (NFloat (3 / 2))) None"
  let ?e3 = "\<lparr>create = (\<lambda>opts. None), extract_info = (\<lambda>opts u dl. ([], Inr ?i3))\<rparr>"
  have p1: "parse_args ?c1 = Inr ?a1"
    by (simp add: parse_args_def format_choices_def)
  have p2: "parse_args ?c2 = Inr ?a2"
    by (simp add: parse_args_def format_choices_def)
  have h1: "create ?e1 (build_opts ?a1) = None
        \<and> extract_info ?e1 (build_opts ?a1) (url ?a1) (\<not> list_formats ?a1)
            = (''[youtube] x'' @ [LF], Inl (DownloadError ''HTTP Error 404''))"
    by simp
  have h2: "create ?e2 (build_opts ?a2) = Some (OtherException ''ValueError'' ''bad option'')"
    by simp
  have h3: "create ?e3 (build_opts ?a1) = None
        \<and> extract_info ?e3 (build_opts ?a1) (url ?a1) (\<not> list_formats ?a1) = ([], Inr ?i3)
        \<and> \<not> list_formats ?a1
        \<and> entries ?i3 = None \<and> title ?i3 = Some (PyStr ''clip'')
        \<and> duration ?i3 = Some (NFloat (3 / 2)) \<and> (3 / 2 :: rat) \<noteq> 0"
    by simp
  from failures_exit_1 [where eng = ?e1 and msg = "''HTTP Error 404''" and out = "[]"
      and w = "''[youtube] x'' @ [LF]", OF p1] h1
  have v1: "main ?e1 ?c1 [] = (LF # ''Fetching info... https://youtu.be/x'' @ [LF] @ ''[youtube] x'' @ [LF]
          @ LF # ''Download failed: HTTP Error 404'' @ [LF], Exit 1)"
    by simp
  from failures_exit_1 [where eng = ?e2 and msg = "''bad option''" and kind = "''ValueError''"
      and out = "''abc''", OF p2] h2
  have v2: "main ?e2 ?c2 ''abc'' = (''abc'' @ LF # ''Unexpected error: ValueError: bad option'' @ [LF], Exit 1)"
    by simp
  from failures_exit_1 [where eng = ?e3 and out = "[]" and w = "[]" and i = ?i3 and t = "''clip''"
      and x = "3 / 2", OF p1] h3
  have v3: "main ?e3 ?c1 [] = (LF # ''Fetching info... https://youtu.be/x'' @ [LF] @ LF # ''Title: clip'' @ [LF]
          @ LF # ''Unexpected error: ValueError: Unknown format code '' @ [CHR 0x27] @ ''d''
          @ [CHR 0x27] @ '' for object of type '' @ [CHR 0x27] @ ''float'' @ [CHR 0x27] @ [LF],
        Exit 1)"
    by simp
  from v1 v2 v3 show ?thesis by (intro conjI)
qed

end
